theory Spec2Isabelle
  imports Main "HOL-Library.Multiset" "HOL-Library.Log_Nat"
begin

section \<open>Data model (src/hooks/useNotebooks.ts)\<close>

text \<open>
  The interfaces of the hook, one record each. Field names carry a prefix because two
  records of one theory cannot share a field name; \<open>string | null\<close> is
  \<open>string option\<close>.
\<close>

record TaskCompletion =
  tc_userId :: string
  tc_userName :: string
  tc_avatarUrl :: "string option"

record Task =
  t_id :: string
  t_title :: string
  t_note_id :: string
  t_folder_id :: "string option"
  t_order_index :: int
  t_created_at :: string
  t_completedBy :: "string list"
  t_completions :: "TaskCompletion list"

record TaskFolder =
  f_id :: string
  f_note_id :: string
  f_title :: string
  f_order_index :: int
  f_is_collapsed :: bool
  f_created_at :: string

record Note =
  n_id :: string
  n_title :: string
  n_notebook_id :: string
  n_order_index :: int
  n_created_at :: string
  n_tasks :: "Task list"
  n_folders :: "TaskFolder list"

datatype UserRole = Owner | Admin | Reader

record Notebook =
  nb_id :: string
  nb_title :: string
  nb_owner_id :: string
  nb_is_shared :: bool
  nb_share_code :: "string option"
  nb_order_index :: int
  nb_created_at :: string
  nb_notes :: "Note list"
  nb_memberCount :: int
  nb_userRole :: UserRole

text \<open>An element of the \<open>newOrder\<close> payload: \<open>{ id, order_index }\<close>.\<close>

record OrderEntry =
  oe_id :: string
  oe_order_index :: int

text \<open>What the code can throw or receive as a failure.\<close>

datatype js_error = TypeError | StoreError

section \<open>JavaScript library functions used by the code\<close>

text \<open>Truthiness of a \<open>string | null\<close>: null and the empty string are falsy.\<close>

definition truthy :: "string option \<Rightarrow> bool" where
  "truthy v = (case v of None \<Rightarrow> False | Some s \<Rightarrow> s \<noteq> [])"

text \<open>\<open>Array.prototype.findIndex\<close>: the first position that satisfies the predicate, -1 if none.\<close>

fun findIndex_from :: "('a \<Rightarrow> bool) \<Rightarrow> 'a list \<Rightarrow> int \<Rightarrow> int" where
  "findIndex_from P [] i = -1"
| "findIndex_from P (x # xs) i = (if P x then i else findIndex_from P xs (i + 1))"

definition findIndex :: "('a \<Rightarrow> bool) \<Rightarrow> 'a list \<Rightarrow> int" where
  "findIndex P xs = findIndex_from P xs 0"

text \<open>
  \<open>Array.prototype.splice(start, deleteCount, ...items)\<close>: a negative start counts from
  the end and is clamped at 0, a start beyond the end is clamped at the length.
\<close>

definition splice_start :: "int \<Rightarrow> nat \<Rightarrow> nat" where
  "splice_start start len =
     (if start < 0 then nat (max (int len + start) 0) else min (nat start) len)"

text \<open>\<open>xs.splice(start, 1)\<close>: the removed element (if there is one) and the array left.\<close>

definition splice_delete1 :: "'a list \<Rightarrow> int \<Rightarrow> 'a option \<times> 'a list" where
  "splice_delete1 xs start =
     (let k = splice_start start (length xs)
      in if k < length xs then (Some (xs ! k), take k xs @ drop (Suc k) xs) else (None, xs))"

text \<open>\<open>xs.splice(start, 0, item)\<close>.\<close>

definition splice_insert :: "'a list \<Rightarrow> int \<Rightarrow> 'a \<Rightarrow> 'a list" where
  "splice_insert xs start item =
     (let k = splice_start start (length xs) in take k xs @ [item] @ drop k xs)"

text \<open>
  \<open>arrayMove\<close> of @dnd-kit/sortable (imported by both drag handlers):
  \<^verbatim>\<open>
  const newArray = array.slice();
  newArray.splice(to < 0 ? newArray.length + to : to, 0, newArray.splice(from, 1)[0]);
  return newArray;
  \<close>
  The insertion position is computed before the removal (arguments are evaluated left to
  right). When nothing is removed, \<open>undefined\<close> is inserted: the result is a list of
  options, \<open>None\<close> being \<open>undefined\<close>.
\<close>

definition arrayMove :: "'a list \<Rightarrow> int \<Rightarrow> int \<Rightarrow> 'a option list" where
  "arrayMove array from to =
     (let toIdx = (if to < 0 then int (length array) + to else to);
          (removed, rest) = splice_delete1 array from
      in splice_insert (map Some rest) toIdx removed)"

text \<open>
  \<open>.map((x, index) => ({ id: x.id, order_index: index }))\<close>; reading \<open>.id\<close> of
  \<open>undefined\<close> throws a TypeError.
\<close>

fun index_payload :: "('a \<Rightarrow> string) \<Rightarrow> 'a option list \<Rightarrow> nat \<Rightarrow> js_error + OrderEntry list" where
  "index_payload getId [] i = Inr []"
| "index_payload getId (None # xs) i = Inl TypeError"
| "index_payload getId (Some x # xs) i =
     (case index_payload getId xs (Suc i) of
        Inl e \<Rightarrow> Inl e
      | Inr r \<Rightarrow> Inr (\<lparr>oe_id = getId x, oe_order_index = int i\<rparr> # r))"

text \<open>\<open>new Map(pairs).get(k)\<close>: the constructor inserts in order, so the last pair of a key wins.\<close>

definition Map_get :: "('k \<times> 'v) list \<Rightarrow> 'k \<Rightarrow> 'v option" where
  "Map_get pairs k = map_of (rev pairs) k"

section \<open>Drag handlers (NoteCard.handleTaskDragEnd, NotebookView.handleDragEnd)\<close>

datatype drag_action =
    NoAction
  | MoveTaskToFolder string "string option"
  | ReorderTasks string "OrderEntry list"

text \<open>The tasks of the container a task with folder reference \<open>fid\<close> lives in.\<close>

definition tasksInContainer :: "Note \<Rightarrow> string option \<Rightarrow> Task list" where
  "tasksInContainer note fid =
     (if fid = None then filter (\<lambda>t. \<not> truthy (t_folder_id t)) (n_tasks note)
      else filter (\<lambda>t. t_folder_id t = fid) (n_tasks note))"

definition handleTaskDragEnd :: "Note \<Rightarrow> string \<Rightarrow> string option \<Rightarrow> js_error + drag_action" where
  "handleTaskDragEnd note activeId over =
     (case over of
        None \<Rightarrow> Inr NoAction
      | Some overId \<Rightarrow>
         (case find (\<lambda>f. f_id f = overId) (n_folders note) of
            Some targetFolder \<Rightarrow>
              (case find (\<lambda>t. t_id t = activeId) (n_tasks note) of
                 Some task \<Rightarrow>
                   if t_folder_id task \<noteq> Some (f_id targetFolder)
                   then Inr (MoveTaskToFolder activeId (Some (f_id targetFolder)))
                   else Inr NoAction
               | None \<Rightarrow> Inr NoAction)
          | None \<Rightarrow>
              if overId = ''root-'' @ n_id note then
                (case find (\<lambda>t. t_id t = activeId) (n_tasks note) of
                   Some task \<Rightarrow>
                     if t_folder_id task \<noteq> None then Inr (MoveTaskToFolder activeId None)
                     else Inr NoAction
                 | None \<Rightarrow> Inr NoAction)
              else
                (case (find (\<lambda>t. t_id t = activeId) (n_tasks note),
                       find (\<lambda>t. t_id t = overId) (n_tasks note)) of
                   (Some activeTask, Some overTask) \<Rightarrow>
                     if t_folder_id activeTask \<noteq> t_folder_id overTask
                     then Inr (MoveTaskToFolder activeId (t_folder_id overTask))
                     else
                       (let container = tasksInContainer note (t_folder_id activeTask);
                            oldIndex = findIndex (\<lambda>t. t_id t = activeId) container;
                            newIndex = findIndex (\<lambda>t. t_id t = overId) container
                        in if oldIndex \<noteq> -1 \<and> newIndex \<noteq> -1
                           then (case index_payload t_id (arrayMove container oldIndex newIndex) 0 of
                                   Inl e \<Rightarrow> Inl e
                                 | Inr newOrder \<Rightarrow> Inr (ReorderTasks (n_id note) newOrder))
                           else Inr NoAction)
                 | _ \<Rightarrow> Inr NoAction)))"

text \<open>
  The note-list handler: \<open>None\<close> when nothing is reordered, otherwise the arguments of
  \<open>onReorderNotes\<close>. The positions are not checked against -1 here.
\<close>

definition handleDragEnd :: "Notebook \<Rightarrow> string \<Rightarrow> string option \<Rightarrow> js_error + (string \<times> OrderEntry list) option" where
  "handleDragEnd notebook activeId over =
     (case over of
        None \<Rightarrow> Inr None
      | Some overId \<Rightarrow>
          if activeId \<noteq> overId then
            (let oldIndex = findIndex (\<lambda>n. n_id n = activeId) (nb_notes notebook);
                 newIndex = findIndex (\<lambda>n. n_id n = overId) (nb_notes notebook)
             in case index_payload n_id (arrayMove (nb_notes notebook) oldIndex newIndex) 0 of
                  Inl e \<Rightarrow> Inl e
                | Inr newOrder \<Rightarrow> Inr (Some (nb_id notebook, newOrder)))
          else Inr None)"

section \<open>The hook's local state and its optimistic mutations (useNotebooks)\<close>

text \<open>
  The state the claims are about: the notebook forest, the notifications shown so far
  (\<open>toast.error\<close>), and the number of whole-tree refetches requested.
\<close>

record hook =
  notebooks :: "Notebook list"
  toasts :: "string list"
  refetches :: nat

text \<open>
  \<open>mutationFn\<close> of both reorder mutations: one update per entry, all awaited; if any
  result carries an error the first one is thrown. \<open>fails\<close> tells which ids the store
  rejects.
\<close>

definition reorder_mutationFn :: "(string \<Rightarrow> bool) \<Rightarrow> OrderEntry list \<Rightarrow> js_error + unit" where
  "reorder_mutationFn fails newOrder =
     (let results = map (\<lambda>e. fails (oe_id e)) newOrder;
          errors = filter (\<lambda>r. r) results
      in if length errors > 0 then Inl StoreError else Inr ())"

text \<open>\<open>onMutate\<close> returns the context (the snapshot) and the state after the optimistic apply.\<close>

definition reorderNotes_apply :: "string \<Rightarrow> OrderEntry list \<Rightarrow> Notebook list \<Rightarrow> Notebook list" where
  "reorderNotes_apply notebookId newOrder prev =
     map (\<lambda>nb. if nb_id nb = notebookId
                then (let noteMap = map (\<lambda>n. (n_id n, n)) (nb_notes nb);
                          reorderedNotes = List.map_filter (\<lambda>e. Map_get noteMap (oe_id e)) newOrder
                      in nb\<lparr>nb_notes := reorderedNotes\<rparr>)
                else nb) prev"

definition reorderNotes_onMutate :: "string \<Rightarrow> OrderEntry list \<Rightarrow> hook \<Rightarrow> Notebook list \<times> hook" where
  "reorderNotes_onMutate notebookId newOrder s =
     (let previousNotebooks = notebooks s
      in (previousNotebooks, s\<lparr>notebooks := reorderNotes_apply notebookId newOrder (notebooks s)\<rparr>))"

definition reorderTasks_apply :: "string \<Rightarrow> OrderEntry list \<Rightarrow> Notebook list \<Rightarrow> Notebook list" where
  "reorderTasks_apply noteId newOrder prev =
     map (\<lambda>nb. nb\<lparr>nb_notes :=
            map (\<lambda>note.
                   if n_id note = noteId
                   then (let taskMap = map (\<lambda>t. (t_id t, t))
                                         (filter (\<lambda>t. \<not> truthy (t_folder_id t)) (n_tasks note));
                             reorderedTasks = List.map_filter (\<lambda>e. Map_get taskMap (oe_id e)) newOrder;
                             folderTasks = filter (\<lambda>t. truthy (t_folder_id t)) (n_tasks note)
                         in note\<lparr>n_tasks := reorderedTasks @ folderTasks\<rparr>)
                   else note)
                (nb_notes nb)\<rparr>) prev"

definition reorderTasks_onMutate :: "string \<Rightarrow> OrderEntry list \<Rightarrow> hook \<Rightarrow> Notebook list \<times> hook" where
  "reorderTasks_onMutate noteId newOrder s =
     (let previousNotebooks = notebooks s
      in (previousNotebooks, s\<lparr>notebooks := reorderTasks_apply noteId newOrder (notebooks s)\<rparr>))"

text \<open>
  \<open>onError\<close>: the snapshot is an array, hence truthy, so it is always restored; then the
  notification. \<open>onSettled\<close> requests the refetch.
\<close>

definition mutation_onError :: "string \<Rightarrow> Notebook list \<Rightarrow> hook \<Rightarrow> hook" where
  "mutation_onError message previousNotebooks s =
     s\<lparr>notebooks := previousNotebooks, toasts := toasts s @ [message]\<rparr>"

definition mutation_onSettled :: "hook \<Rightarrow> hook" where
  "mutation_onSettled s = s\<lparr>refetches := Suc (refetches s)\<rparr>"

text \<open>\<open>mutation.mutate(variables)\<close>: onMutate, the write, onError if it threw, onSettled.\<close>

definition reorderNotes :: "(string \<Rightarrow> bool) \<Rightarrow> string \<Rightarrow> OrderEntry list \<Rightarrow> hook \<Rightarrow> hook" where
  "reorderNotes fails notebookId newOrder s =
     (let (previousNotebooks, s1) = reorderNotes_onMutate notebookId newOrder s;
          s2 = (case reorder_mutationFn fails newOrder of
                  Inl err \<Rightarrow> mutation_onError ''Failed to reorder notes'' previousNotebooks s1
                | Inr ok \<Rightarrow> s1)
      in mutation_onSettled s2)"

definition reorderTasks :: "(string \<Rightarrow> bool) \<Rightarrow> string \<Rightarrow> OrderEntry list \<Rightarrow> hook \<Rightarrow> hook" where
  "reorderTasks fails noteId newOrder s =
     (let (previousNotebooks, s1) = reorderTasks_onMutate noteId newOrder s;
          s2 = (case reorder_mutationFn fails newOrder of
                  Inl err \<Rightarrow> mutation_onError ''Failed to reorder tasks'' previousNotebooks s1
                | Inr ok \<Rightarrow> s1)
      in mutation_onSettled s2)"

text \<open>
  Moving a task: the durable write is \<open>update({ folder_id }).eq('id', taskId)\<close>, the
  optimistic apply patches the same field of every task with that id.
\<close>

definition moveTask_apply :: "string \<Rightarrow> string option \<Rightarrow> Notebook list \<Rightarrow> Notebook list" where
  "moveTask_apply taskId folderId prev =
     map (\<lambda>nb. nb\<lparr>nb_notes :=
            map (\<lambda>note. note\<lparr>n_tasks :=
                   map (\<lambda>task. if t_id task = taskId then task\<lparr>t_folder_id := folderId\<rparr> else task)
                       (n_tasks note)\<rparr>)
                (nb_notes nb)\<rparr>) prev"

definition moveTaskToFolder :: "bool \<Rightarrow> string \<Rightarrow> string option \<Rightarrow> hook \<Rightarrow> hook" where
  "moveTaskToFolder write_fails taskId folderId s =
     (let previousNotebooks = notebooks s;
          s1 = s\<lparr>notebooks := moveTask_apply taskId folderId (notebooks s)\<rparr>;
          s2 = (if write_fails then mutation_onError ''Failed to move task'' previousNotebooks s1
                else s1)
      in mutation_onSettled s2)"

section \<open>Comment threads (TaskCommentsPanel)\<close>

record CommentRow =
  c_id :: string
  c_task_id :: string
  c_user_id :: string
  c_content :: string
  c_created_at :: string
  c_user_name :: "string option"
  c_avatar_url :: "string option"

record Profile =
  p_name :: string
  p_avatar_url :: "string option"

text \<open>\<open>data?.name || 'Unknown'\<close> and \<open>data?.avatar_url || null\<close>.\<close>

definition name_or :: "string \<Rightarrow> Profile option \<Rightarrow> string" where
  "name_or dflt data = (case data of None \<Rightarrow> dflt | Some p \<Rightarrow> if p_name p = [] then dflt else p_name p)"

definition avatar_or_null :: "Profile option \<Rightarrow> string option" where
  "avatar_or_null data =
     (case data of None \<Rightarrow> None | Some p \<Rightarrow> if truthy (p_avatar_url p) then p_avatar_url p else None)"

text \<open>
  The INSERT branch of the subscription, first updater: the state is returned as it is;
  the profile lookup is started only when the id is not held (second component).
\<close>

definition insert_received :: "CommentRow \<Rightarrow> CommentRow list \<Rightarrow> CommentRow list \<times> bool" where
  "insert_received newRow prev =
     (let exists = list_ex (\<lambda>c. c_id c = c_id newRow) prev
      in if exists then (prev, False) else (prev, True))"

text \<open>The updater run when that lookup resolves.\<close>

definition insert_resolved :: "CommentRow \<Rightarrow> Profile option \<Rightarrow> CommentRow list \<Rightarrow> CommentRow list" where
  "insert_resolved newRow data current =
     (let alreadyExists = list_ex (\<lambda>c. c_id c = c_id newRow) current
      in if alreadyExists then current
         else current @ [newRow\<lparr>c_user_name := Some (name_or ''Unknown'' data),
                                c_avatar_url := avatar_or_null data\<rparr>])"

definition delete_received :: "string \<Rightarrow> CommentRow list \<Rightarrow> CommentRow list" where
  "delete_received old_id prev = filter (\<lambda>c. c_id c \<noteq> old_id) prev"

text \<open>\<open>handleSend\<close>: the optimistic append, then one of the two updaters.\<close>

definition send_optimistic ::
  "string \<Rightarrow> string \<Rightarrow> string \<Rightarrow> string \<Rightarrow> string \<Rightarrow> Profile option \<Rightarrow> CommentRow list \<Rightarrow> CommentRow list" where
  "send_optimistic tempId now taskId userId content profile prev =
     prev @ [\<lparr>c_id = tempId, c_task_id = taskId, c_user_id = userId, c_content = content,
              c_created_at = now, c_user_name = Some (name_or ''You'' profile),
              c_avatar_url = avatar_or_null profile\<rparr>]"

definition send_succeeded :: "string \<Rightarrow> CommentRow \<Rightarrow> Profile option \<Rightarrow> CommentRow list \<Rightarrow> CommentRow list" where
  "send_succeeded tempId data profile prev =
     (let withoutTemp = filter (\<lambda>c. c_id c \<noteq> tempId) prev;
          alreadyExists = list_ex (\<lambda>c. c_id c = c_id data) withoutTemp
      in if alreadyExists then withoutTemp
         else withoutTemp @ [\<lparr>c_id = c_id data, c_task_id = c_task_id data, c_user_id = c_user_id data,
                               c_content = c_content data, c_created_at = c_created_at data,
                               c_user_name = Some (name_or ''You'' profile),
                               c_avatar_url = avatar_or_null profile\<rparr>])"

definition send_failed :: "string \<Rightarrow> CommentRow list \<Rightarrow> CommentRow list" where
  "send_failed tempId prev = filter (\<lambda>c. c_id c \<noteq> tempId) prev"

text \<open>
  The events of one open thread after the optimistic append, and the thread state: the
  comments and the rows whose profile lookup is in flight.
\<close>

datatype event =
    PushInsert CommentRow
  | ProfileResolved CommentRow "Profile option"
  | SendResponse string CommentRow "Profile option"
  | PushDelete string

fun step :: "event \<Rightarrow> CommentRow list \<times> CommentRow list \<Rightarrow> CommentRow list \<times> CommentRow list" where
  "step (PushInsert newRow) (cs, pending) =
     (case insert_received newRow cs of (cs', started) \<Rightarrow>
        (cs', if started then pending @ [newRow] else pending))"
| "step (ProfileResolved newRow data) (cs, pending) =
     (if newRow \<in> set pending then (insert_resolved newRow data cs, remove1 newRow pending)
      else (cs, pending))"
| "step (SendResponse tempId data profile) (cs, pending) = (send_succeeded tempId data profile cs, pending)"
| "step (PushDelete old_id) (cs, pending) = (delete_received old_id cs, pending)"

definition run :: "event list \<Rightarrow> CommentRow list \<times> CommentRow list \<Rightarrow> CommentRow list \<times> CommentRow list" where
  "run es st = fold step es st"

text \<open>The number of entries of a thread that carry a given id.\<close>

definition entries :: "string \<Rightarrow> CommentRow list \<Rightarrow> nat" where
  "entries d cs = length (filter (\<lambda>c. c_id c = d) cs)"

text \<open>
  The other comments panel of the repository (the one with the "Back to Members"
  button): its INSERT branch appends when the lookup resolves, without looking at the
  ids held, and its \<open>handleSend\<close> leaves the list to the subscription.
\<close>

definition legacy_insert_resolved :: "CommentRow \<Rightarrow> Profile option \<Rightarrow> CommentRow list \<Rightarrow> CommentRow list" where
  "legacy_insert_resolved newRow data prev =
     prev @ [newRow\<lparr>c_user_name := Some (name_or ''Unknown'' data), c_avatar_url := avatar_or_null data\<rparr>]"

definition legacy_send_succeeded :: "CommentRow list \<Rightarrow> CommentRow list" where
  "legacy_send_succeeded prev = prev"

section \<open>Completion toggle (useNotebooks.toggleTask)\<close>





section \<open>Creating a task (useNotebooks.addTask)\<close>




section \<open>The durable store as far as joining and counting members go\<close>

record NotebookRow =
  row_id :: string
  row_title :: string
  row_owner_id :: string
  row_is_shared :: bool
  row_share_code :: "string option"
  row_order_index :: int
  row_created_at :: string

record MemberRow =
  m_id :: string
  m_notebook_id :: string
  m_user_id :: string
  m_role :: UserRole

record database =
  notebooks_table :: "NotebookRow list"
  notebook_members :: "MemberRow list"

text \<open>
  \<open>.maybeSingle()\<close>: no row is \<open>null\<close>, one row is that row, several rows are an error;
  \<open>fails\<close> is a failure of the call itself.
\<close>

definition maybeSingle :: "bool \<Rightarrow> 'a list \<Rightarrow> js_error + 'a option" where
  "maybeSingle fails rows =
     (if fails then Inl StoreError
      else case rows of [] \<Rightarrow> Inr None | [x] \<Rightarrow> Inr (Some x) | _ \<Rightarrow> Inl StoreError)"

section \<open>Fetching the notebooks (useNotebooks.fetchNotebooks)\<close>

text \<open>The count query on \<open>notebook_members\<close>; \<open>null\<close> when the call fails.\<close>

definition count_members :: "bool \<Rightarrow> database \<Rightarrow> string \<Rightarrow> nat option" where
  "count_members fails db notebookId =
     (if fails then None
      else Some (length (filter (\<lambda>m. m_notebook_id m = notebookId) (notebook_members db))))"

text \<open>\<open>(memberCount || 0) + 1\<close>.\<close>

definition memberCount_plus_owner :: "nat option \<Rightarrow> int" where
  "memberCount_plus_owner c = (case c of None \<Rightarrow> 0 | Some k \<Rightarrow> if k = 0 then 0 else int k) + 1"

text \<open>
  One notebook of the result. \<open>notes_of\<close> stands for the notes, folders, tasks and
  completions assembled for the notebook, which the member count does not depend on.
\<close>

definition fetch_notebook :: "bool \<Rightarrow> database \<Rightarrow> (string \<Rightarrow> Note list) \<Rightarrow> string \<Rightarrow> NotebookRow \<Rightarrow> Notebook" where
  "fetch_notebook count_fails db notes_of uid nb =
     (let userRole =
            (if row_owner_id nb = uid then Owner
             else (case maybeSingle False
                          (filter (\<lambda>m. m_notebook_id m = row_id nb \<and> m_user_id m = uid) (notebook_members db)) of
                     Inr (Some membership) \<Rightarrow> m_role membership
                   | _ \<Rightarrow> Reader));
          memberCount = count_members count_fails db (row_id nb)
      in \<lparr>nb_id = row_id nb, nb_title = row_title nb, nb_owner_id = row_owner_id nb,
          nb_is_shared = row_is_shared nb, nb_share_code = row_share_code nb,
          nb_order_index = row_order_index nb, nb_created_at = row_created_at nb,
          nb_notes = notes_of (row_id nb),
          nb_memberCount = memberCount_plus_owner memberCount, nb_userRole = userRole\<rparr>)"

text \<open>The owned notebooks, then the notebooks of the user's membership rows, without repeating an id.\<close>

fun dedupe :: "string list \<Rightarrow> NotebookRow list \<Rightarrow> NotebookRow list" where
  "dedupe seen [] = []"
| "dedupe seen (nb # nbs) =
     (if row_id nb \<in> set seen then dedupe seen nbs else nb # dedupe (row_id nb # seen) nbs)"

definition fetchNotebooks :: "bool \<Rightarrow> database \<Rightarrow> (string \<Rightarrow> Note list) \<Rightarrow> string option \<Rightarrow> Notebook list" where
  "fetchNotebooks count_fails db notes_of user =
     (case user of
        None \<Rightarrow> []
      | Some uid \<Rightarrow>
          (let ownedNotebooks = filter (\<lambda>nb. row_owner_id nb = uid) (notebooks_table db);
               memberNotebooks =
                 List.map_filter (\<lambda>m. find (\<lambda>nb. row_id nb = m_notebook_id m) (notebooks_table db))
                   (filter (\<lambda>m. m_user_id m = uid) (notebook_members db));
               allNotebooks = dedupe [] (ownedNotebooks @ memberNotebooks)
           in map (fetch_notebook count_fails db notes_of uid) allNotebooks))"

section \<open>Row-level security of the store (supabase/migrations)\<close>






section \<open>Joining by share code (JoinNotebookDialog.handleJoin)\<close>



section \<open>Numbers (IEEE 754 double precision) and the progress functions\<close>

text \<open>
  A JavaScript number is a double. The values here are rationals; \<open>fl\<close> rounds a
  rational to the nearest double (53 significant bits, ties to the even significand),
  which is what \<open>/\<close> and \<open>*\<close> do with the exact result. The exponent range is left out:
  no quotient or product formed by the progress functions from counts below
  \<open>2^53\<close> leaves it. Counts (array lengths, their sums and products) are integers
  below \<open>2^53\<close> and are exact.
\<close>

text \<open>Round to the nearest integer, a tie to the even one.\<close>

definition round_half_even :: "rat \<Rightarrow> int" where
  "round_half_even x =
     (let f = \<lfloor>x\<rfloor>; d = x - of_int f
      in if d < 1/2 then f else if 1/2 < d then f + 1 else if even f then f else f + 1)"

text \<open>The exponent \<open>e\<close> with \<open>2^e \<le> x < 2^(e+1)\<close>, for \<open>x > 0\<close>.\<close>

definition binade :: "rat \<Rightarrow> int" where
  "binade x =
     (let (p, q) = quotient_of x;
          e0 = int (floorlog 2 (nat p)) - int (floorlog 2 (nat q))
      in if power_int 2 e0 \<le> x then e0 else e0 - 1)"

text \<open>The nearest double.\<close>

definition fl :: "rat \<Rightarrow> rat" where
  "fl x =
     (if x = 0 then 0
      else (let u = power_int 2 (binade \<bar>x\<bar> - 52)
            in sgn x * of_int (round_half_even (\<bar>x\<bar> / u)) * u))"

text \<open>\<open>Math.round\<close>: the nearest integer, a tie upwards.\<close>

definition Math_round :: "rat \<Rightarrow> int" where
  "Math_round x = \<lfloor>x + 1/2\<rfloor>"

text \<open>\<open>Math.round((a / b) * 100)\<close> for two counts.\<close>

definition js_percent :: "nat \<Rightarrow> nat \<Rightarrow> int" where
  "js_percent a b = Math_round (fl (fl (of_nat a / of_nat b) * 100))"

record NotebookProgress =
  pr_completed :: nat
  pr_total :: nat
  pr_percentage :: int

definition no_progress :: NotebookProgress where
  "no_progress = \<lparr>pr_completed = 0, pr_total = 0, pr_percentage = 0\<rparr>"

text \<open>\<open>calculateNoteProgress\<close> of NoteCard and \<open>calculateProgress\<close> of NotebookView.\<close>

definition calculateNoteProgress :: "Note \<Rightarrow> string \<Rightarrow> NotebookProgress" where
  "calculateNoteProgress note userId =
     (let n = length (n_tasks note)
      in if n = 0 then no_progress
         else (let completed = length (filter (\<lambda>task. userId \<in> set (t_completedBy task)) (n_tasks note))
               in \<lparr>pr_completed = completed, pr_total = n, pr_percentage = js_percent completed n\<rparr>))"

definition calculateProgress :: "Notebook \<Rightarrow> string \<Rightarrow> NotebookProgress" where
  "calculateProgress notebook userId =
     (let allTasks = concat (map n_tasks (nb_notes notebook));
          n = length allTasks
      in if n = 0 then no_progress
         else (let completed = length (filter (\<lambda>task. userId \<in> set (t_completedBy task)) allTasks)
               in \<lparr>pr_completed = completed, pr_total = n, pr_percentage = js_percent completed n\<rparr>))"

text \<open>\<open>calculateGroupAverage\<close> of NotebookView, shown for a shared notebook.\<close>

definition calculateGroupAverage :: "Notebook \<Rightarrow> NotebookProgress" where
  "calculateGroupAverage notebook =
     (let allTasks = concat (map n_tasks (nb_notes notebook));
          n = length allTasks
      in if n = 0 \<or> nb_memberCount notebook = 0 then no_progress
         else (let totalCompletions = fold (\<lambda>task sum. sum + length (t_completedBy task)) allTasks 0;
                   avgPercentage =
                     Math_round (fl (fl (of_nat totalCompletions / (of_nat n * of_int (nb_memberCount notebook))) * 100))
               in \<lparr>pr_completed = 0, pr_total = 0, pr_percentage = avgPercentage\<rparr>))"

text \<open>
  The types module with the earlier data model (a task has a \<open>completed\<close> flag, a
  notebook lists its members) and its three progress functions; \<open>userId\<close> is optional.
\<close>

record LegacyTask =
  lt_id :: string
  lt_title :: string
  lt_completed :: bool
  lt_completedBy :: "string list"
  lt_createdAt :: string

record LegacyNote =
  ln_id :: string
  ln_title :: string
  ln_tasks :: "LegacyTask list"
  ln_createdAt :: string

record LegacyMember =
  lm_userId :: string
  lm_role :: UserRole
  lm_joinedAt :: string

record LegacyNotebook =
  lnb_id :: string
  lnb_title :: string
  lnb_notes :: "LegacyNote list"
  lnb_ownerId :: string
  lnb_members :: "LegacyMember list"
  lnb_isShared :: bool
  lnb_createdAt :: string

definition legacy_progress :: "LegacyTask list \<Rightarrow> string option \<Rightarrow> NotebookProgress" where
  "legacy_progress tasks userId =
     (let n = length tasks
      in if n = 0 then no_progress
         else (let completed =
                     (if truthy userId
                      then length (filter (\<lambda>task. the userId \<in> set (lt_completedBy task)) tasks)
                      else length (filter (\<lambda>task. lt_completed task) tasks))
               in \<lparr>pr_completed = completed, pr_total = n, pr_percentage = js_percent completed n\<rparr>))"

definition legacy_calculateNoteProgress :: "LegacyNote \<Rightarrow> string option \<Rightarrow> NotebookProgress" where
  "legacy_calculateNoteProgress note userId = legacy_progress (ln_tasks note) userId"

definition legacy_calculateNotebookProgress :: "LegacyNotebook \<Rightarrow> string option \<Rightarrow> NotebookProgress" where
  "legacy_calculateNotebookProgress notebook userId =
     legacy_progress (concat (map ln_tasks (lnb_notes notebook))) userId"

definition calculateGroupAverageProgress :: "LegacyNotebook \<Rightarrow> NotebookProgress" where
  "calculateGroupAverageProgress notebook =
     (if length (lnb_members notebook) = 0 then no_progress
      else (let memberProgresses =
                  map (\<lambda>member. legacy_calculateNotebookProgress notebook (Some (lm_userId member)))
                      (lnb_members notebook);
                avgPercentage =
                  Math_round (fl (of_int (fold (\<lambda>p sum. sum + pr_percentage p) memberProgresses 0)
                                  / of_nat (length (lnb_members notebook))))
            in \<lparr>pr_completed = 0, pr_total = 0, pr_percentage = avgPercentage\<rparr>))"

text \<open>\<open>p\<close> is an integer nearest to the exact percentage \<open>100 c / n\<close>.\<close>

definition nearest_percent :: "int \<Rightarrow> nat \<Rightarrow> nat \<Rightarrow> bool" where
  "nearest_percent p c n = (\<bar>of_int p - 100 * (of_nat c / of_nat n :: rat)\<bar> \<le> 1/2)"

section \<open>Example values\<close>

definition mk_task :: "string \<Rightarrow> string option \<Rightarrow> int \<Rightarrow> Task" where
  "mk_task i fid k = \<lparr>t_id = i, t_title = i, t_note_id = ''n1'', t_folder_id = fid,
     t_order_index = k, t_created_at = [], t_completedBy = [], t_completions = []\<rparr>"

definition mk_note :: "string \<Rightarrow> Task list \<Rightarrow> TaskFolder list \<Rightarrow> Note" where
  "mk_note i ts fs = \<lparr>n_id = i, n_title = i, n_notebook_id = ''nb1'', n_order_index = 0,
     n_created_at = [], n_tasks = ts, n_folders = fs\<rparr>"

definition mk_notebook :: "string \<Rightarrow> Note list \<Rightarrow> Notebook" where
  "mk_notebook i ns = \<lparr>nb_id = i, nb_title = i, nb_owner_id = ''u1'', nb_is_shared = True,
     nb_share_code = None, nb_order_index = 0, nb_created_at = [], nb_notes = ns,
     nb_memberCount = 1, nb_userRole = Owner\<rparr>"

definition note_ABC :: Note where
  "note_ABC = mk_note ''n1'' [mk_task ''A'' None 0, mk_task ''B'' None 1, mk_task ''C'' None 2] []"

definition notebook_ABC :: Notebook where
  "notebook_ABC = mk_notebook ''nb1'' [note_ABC, mk_note ''n2'' [] []]"

definition all_tasks :: "Notebook list \<Rightarrow> Task list" where
  "all_tasks nbs = concat (map n_tasks (concat (map nb_notes nbs)))"

definition hook_ABC :: hook where
  "hook_ABC = \<lparr>notebooks = [notebook_ABC], toasts = [], refetches = 0\<rparr>"

definition order_BAC :: "OrderEntry list" where
  "order_BAC = [\<lparr>oe_id = ''B'', oe_order_index = 0\<rparr>, \<lparr>oe_id = ''A'', oe_order_index = 1\<rparr>,
                \<lparr>oe_id = ''C'', oe_order_index = 2\<rparr>]"

definition order_n2_n1 :: "OrderEntry list" where
  "order_n2_n1 = [\<lparr>oe_id = ''n2'', oe_order_index = 0\<rparr>, \<lparr>oe_id = ''n1'', oe_order_index = 1\<rparr>]"

text \<open>The forest with every task list emptied: all fields of notebooks and notes except the tasks.\<close>

definition skeleton :: "Notebook list \<Rightarrow> Notebook list" where
  "skeleton nbs = map (\<lambda>nb. nb\<lparr>nb_notes := map (\<lambda>n. n\<lparr>n_tasks := []\<rparr>) (nb_notes nb)\<rparr>) nbs"

text \<open>The task lists, note by note, under a projection of the tasks.\<close>

definition task_view :: "(Task \<Rightarrow> 'a) \<Rightarrow> Notebook list \<Rightarrow> 'a list list list" where
  "task_view f nbs = map (\<lambda>nb. map (\<lambda>n. map f (n_tasks n)) (nb_notes nb)) nbs"

definition note_folders :: Note where
  "note_folders = mk_note ''n1''
     [mk_task ''A'' None 0, mk_task ''B'' None 1, mk_task ''C'' (Some ''F'') 0, mk_task ''D'' (Some ''F'') 1]
     [\<lparr>f_id = ''F'', f_note_id = ''n1'', f_title = ''F'', f_order_index = 0, f_is_collapsed = False,
       f_created_at = []\<rparr>]"

definition hook_folders :: hook where
  "hook_folders = \<lparr>notebooks = [mk_notebook ''nb1'' [note_folders]], toasts = [], refetches = 0\<rparr>"

definition row_d :: CommentRow where
  "row_d = \<lparr>c_id = ''d'', c_task_id = ''t1'', c_user_id = ''u1'', c_content = ''hello'',
            c_created_at = ''2025-12-07T18:00:00Z'', c_user_name = None, c_avatar_url = None\<rparr>"

definition comment_d :: CommentRow where
  "comment_d = row_d\<lparr>c_user_name := Some ''Unknown''\<rparr>"

definition sent_hello :: "CommentRow list" where
  "sent_hello = send_optimistic ''temp_1'' ''2025-12-07T17:59:59Z'' ''t1'' ''u1'' ''hello'' None []"








definition db_owner_member :: database where
  "db_owner_member =
     \<lparr>notebooks_table = [\<lparr>row_id = ''nb1'', row_title = ''Plans'', row_owner_id = ''u1'',
                            row_is_shared = True, row_share_code = Some ''ABCD2345'',
                            row_order_index = 0, row_created_at = []\<rparr>],
      notebook_members = [\<lparr>m_id = ''m1'', m_notebook_id = ''nb1'', m_user_id = ''u1'', m_role = Owner\<rparr>]\<rparr>"









definition task_by :: "string list \<Rightarrow> Task" where
  "task_by users = (mk_task ''t'' None 0)\<lparr>t_completedBy := users\<rparr>"

definition note_1_of_4 :: Note where
  "note_1_of_4 = mk_note ''n1'' [task_by [''u1''], task_by [], task_by [''u2''], task_by []] []"

definition note_29_of_200 :: Note where
  "note_29_of_200 = mk_note ''n1'' (replicate 29 (task_by [''u1'']) @ replicate 171 (task_by [])) []"

definition note_1_of_8 :: Note where
  "note_1_of_8 = mk_note ''n1'' (task_by [''u1''] # replicate 7 (task_by [])) []"

definition legacy_task :: "string list \<Rightarrow> LegacyTask" where
  "legacy_task users = \<lparr>lt_id = ''t'', lt_title = ''t'', lt_completed = False, lt_completedBy = users,
     lt_createdAt = []\<rparr>"

definition legacy_notebook_8 :: LegacyNotebook where
  "legacy_notebook_8 =
     \<lparr>lnb_id = ''nb1'', lnb_title = ''Plans'',
      lnb_notes = [\<lparr>ln_id = ''n1'', ln_title = ''n1'',
                    ln_tasks = legacy_task [''A''] # replicate 7 (legacy_task []), ln_createdAt = []\<rparr>],
      lnb_ownerId = ''A'',
      lnb_members = [\<lparr>lm_userId = ''A'', lm_role = Owner, lm_joinedAt = []\<rparr>,
                     \<lparr>lm_userId = ''B'', lm_role = Reader, lm_joinedAt = []\<rparr>],
      lnb_isShared = True, lnb_createdAt = []\<rparr>"

definition notebook_group :: Notebook where
  "notebook_group = (mk_notebook ''nb1'' [note_1_of_4])\<lparr>nb_memberCount := 2\<rparr>"

section \<open>Reordering keeps the members and renumbers them\<close>

lemma splice_delete1_Some:
  "splice_delete1 xs i = (Some x, r) \<Longrightarrow> mset xs = add_mset x (mset r)"
proof -
  assume a: "splice_delete1 xs i = (Some x, r)"
  define k where "k = splice_start i (length xs)"
  from a have k: "k < length xs" and x: "x = xs ! k" and r: "r = take k xs @ drop (Suc k) xs"
    by (auto simp: splice_delete1_def Let_def k_def split: if_splits)
  have "xs = take k xs @ xs ! k # drop (Suc k) xs"
    using k by (simp add: id_take_nth_drop)
  then have "mset xs = mset (take k xs @ xs ! k # drop (Suc k) xs)" by simp
  then show ?thesis by (simp add: x r)
qed

lemma splice_delete1_None: "splice_delete1 xs i = (None, r) \<Longrightarrow> r = xs"
  by (auto simp: splice_delete1_def Let_def split: if_splits)

lemma mset_splice_insert: "mset (splice_insert xs i x) = add_mset x (mset xs)"
proof -
  have "mset (take k xs) + mset (drop k xs) = mset xs" for k
    by (metis append_take_drop_id mset_append)
  then show ?thesis by (simp add: splice_insert_def Let_def)
qed

lemma arrayMove_cases:
  "(\<exists>x r. splice_delete1 xs from = (Some x, r) \<and> mset (arrayMove xs from to) = mset (map Some xs))
   \<or> None \<in> set (arrayMove xs from to)"
proof (cases "splice_delete1 xs from")
  case (Pair removed rest)
  show ?thesis
  proof (cases removed)
    case None
    have "None \<in># mset (arrayMove xs from to)"
      using Pair None by (simp add: arrayMove_def Let_def mset_splice_insert)
    then show ?thesis by simp
  next
    case (Some x)
    have "mset xs = add_mset x (mset rest)"
      using Pair Some splice_delete1_Some by fastforce
    then have "mset (arrayMove xs from to) = mset (map Some xs)"
      using Pair Some by (simp add: arrayMove_def Let_def mset_splice_insert)
    then show ?thesis using Pair Some by blast
  qed
qed

lemma index_payload_Inr:
  "index_payload getId ys i = Inr r \<Longrightarrow>
     (\<exists>xs. ys = map Some xs \<and> map oe_id r = map getId xs) \<and>
     map oe_order_index r = map int [i ..< i + length ys]"
proof (induction getId ys i arbitrary: r rule: index_payload.induct)
  case (1 getId i)
  then show ?case by simp
next
  case (2 getId xs i)
  then show ?case by simp
next
  case (3 getId x xs i)
  from "3.prems" obtain r' where r': "index_payload getId xs (Suc i) = Inr r'"
    and r: "r = \<lparr>oe_id = getId x, oe_order_index = int i\<rparr> # r'"
    by (auto split: sum.splits)
  from "3.IH"[OF r'] obtain zs where zs: "xs = map Some zs" "map oe_id r' = map getId zs"
    and idx: "map oe_order_index r' = map int [Suc i ..< Suc i + length xs]"
    by blast
  have "Some x # xs = map Some (x # zs)" using zs by simp
  moreover have "map oe_id r = map getId (x # zs)" using zs r by simp
  moreover have "map oe_order_index r = map int [i ..< i + length (Some x # xs)]"
  proof -
    have "[i ..< i + length (Some x # xs)] = i # [Suc i ..< Suc i + length xs]"
      by (simp del: upt_Suc add: upt_conv_Cons)
    then show ?thesis using idx r by (simp del: upt_Suc)
  qed
  ultimately show ?case by (intro conjI exI[of _ "x # zs"])
qed

lemma reorder_payload:
  assumes "index_payload getId (arrayMove xs from to) 0 = Inr newOrder"
  shows "mset (map oe_id newOrder) = mset (map getId xs)"
    and "map oe_order_index newOrder = map int [0 ..< length xs]"
proof -
  from index_payload_Inr[OF assms] obtain zs where
    zs: "arrayMove xs from to = map Some zs" "map oe_id newOrder = map getId zs"
    and idx: "map oe_order_index newOrder = map int [0 ..< length (arrayMove xs from to)]"
    by auto
  have "None \<notin> set (arrayMove xs from to)" using zs by auto
  with arrayMove_cases[of xs "from" to] have m: "mset (arrayMove xs from to) = mset (map Some xs)"
    by blast
  then have "mset (map Some zs) = mset (map Some xs)" using zs by simp
  then have "image_mset the (mset (map Some zs)) = image_mset the (mset (map Some xs))" by simp
  then have e: "mset zs = mset xs"
    by (simp add: multiset.map_comp comp_def)
  show "mset (map oe_id newOrder) = mset (map getId xs)"
    using zs e by (metis mset_map)
  have "length (arrayMove xs from to) = length xs"
    using m by (metis length_map size_mset)
  then show "map oe_order_index newOrder = map int [0 ..< length xs]" using idx by simp
qed

text \<open>
  C1. Whenever a drag handler issues a reorder (of the tasks of the dragged task's
  container, root or folder, or of the notes of a notebook), the payload it sends holds
  exactly the ids of the container's current members (as a multiset, so none is lost,
  added or repeated) and the entry at position \<open>i\<close> carries \<open>order_index = i\<close>: the indices
  are 0, 1, 2, ... in the resulting order.
\<close>

theorem reorder_keeps_ids_and_renumbers:
  "(handleTaskDragEnd note activeId over = Inr (ReorderTasks noteId newOrder) \<longrightarrow>
      (\<exists>activeTask. find (\<lambda>t. t_id t = activeId) (n_tasks note) = Some activeTask \<and>
         noteId = n_id note \<and>
         mset (map oe_id newOrder) = mset (map t_id (tasksInContainer note (t_folder_id activeTask))) \<and>
         map oe_order_index newOrder =
           map int [0 ..< length (tasksInContainer note (t_folder_id activeTask))]))
   \<and> (handleDragEnd notebook activeNote overNote = Inr (Some (notebookId, noteOrder)) \<longrightarrow>
         notebookId = nb_id notebook \<and>
         mset (map oe_id noteOrder) = mset (map n_id (nb_notes notebook)) \<and>
         map oe_order_index noteOrder = map int [0 ..< length (nb_notes notebook)])"
proof (rule conjI; rule impI)
  assume h: "handleTaskDragEnd note activeId over = Inr (ReorderTasks noteId newOrder)"
  then obtain activeTask oldIndex newIndex where
    a: "find (\<lambda>t. t_id t = activeId) (n_tasks note) = Some activeTask" and
    n: "noteId = n_id note" and
    p: "index_payload t_id (arrayMove (tasksInContainer note (t_folder_id activeTask)) oldIndex newIndex) 0
          = Inr newOrder"
    by (auto simp: handleTaskDragEnd_def Let_def split: option.splits if_splits sum.splits)
  from reorder_payload[OF p] a n
  show "\<exists>activeTask. find (\<lambda>t. t_id t = activeId) (n_tasks note) = Some activeTask \<and>
         noteId = n_id note \<and>
         mset (map oe_id newOrder) = mset (map t_id (tasksInContainer note (t_folder_id activeTask))) \<and>
         map oe_order_index newOrder =
           map int [0 ..< length (tasksInContainer note (t_folder_id activeTask))]"
    by blast
next
  assume h: "handleDragEnd notebook activeNote overNote = Inr (Some (notebookId, noteOrder))"
  then obtain oldIndex newIndex where
    n: "notebookId = nb_id notebook" and
    p: "index_payload n_id (arrayMove (nb_notes notebook) oldIndex newIndex) 0 = Inr noteOrder"
    by (auto simp: handleDragEnd_def Let_def split: option.splits if_splits sum.splits)
  from reorder_payload[OF p] n
  show "notebookId = nb_id notebook \<and>
         mset (map oe_id noteOrder) = mset (map n_id (nb_notes notebook)) \<and>
         map oe_order_index noteOrder = map int [0 ..< length (nb_notes notebook)]"
    by simp
qed

lemmas example_defs = mk_task_def mk_note_def mk_notebook_def note_ABC_def notebook_ABC_def

lemmas js_defs = truthy_def findIndex_def splice_start_def splice_delete1_def splice_insert_def
  arrayMove_def Map_get_def Let_def

lemma drag_B_over_A:
  "handleTaskDragEnd note_ABC ''B'' (Some ''A'') =
     Inr (ReorderTasks ''n1'' [\<lparr>oe_id = ''B'', oe_order_index = 0\<rparr>,
                               \<lparr>oe_id = ''A'', oe_order_index = 1\<rparr>,
                               \<lparr>oe_id = ''C'', oe_order_index = 2\<rparr>])"
  by (simp add: handleTaskDragEnd_def tasksInContainer_def example_defs js_defs)

lemma drag_n2_over_n1:
  "handleDragEnd notebook_ABC ''n2'' (Some ''n1'') =
     Inr (Some (''nb1'', [\<lparr>oe_id = ''n2'', oe_order_index = 0\<rparr>,
                          \<lparr>oe_id = ''n1'', oe_order_index = 1\<rparr>]))"
  by (simp add: handleDragEnd_def example_defs js_defs)

theorem reorder_keeps_ids_and_renumbers_witness:
  "handleTaskDragEnd note_ABC ''B'' (Some ''A'') =
     Inr (ReorderTasks ''n1'' [\<lparr>oe_id = ''B'', oe_order_index = 0\<rparr>,
                               \<lparr>oe_id = ''A'', oe_order_index = 1\<rparr>,
                               \<lparr>oe_id = ''C'', oe_order_index = 2\<rparr>])
   \<and> mset [''B'', ''A'', ''C''] = mset (map t_id (tasksInContainer note_ABC None))
   \<and> handleDragEnd notebook_ABC ''n2'' (Some ''n1'') =
     Inr (Some (''nb1'', [\<lparr>oe_id = ''n2'', oe_order_index = 0\<rparr>,
                          \<lparr>oe_id = ''n1'', oe_order_index = 1\<rparr>]))
   \<and> mset [''n2'', ''n1''] = mset (map n_id (nb_notes notebook_ABC))"
proof -
  note t = reorder_keeps_ids_and_renumbers[of note_ABC "''B''" "Some ''A''" "''n1''"
      "[\<lparr>oe_id = ''B'', oe_order_index = 0\<rparr>, \<lparr>oe_id = ''A'', oe_order_index = 1\<rparr>,
        \<lparr>oe_id = ''C'', oe_order_index = 2\<rparr>]"
      notebook_ABC "''n2''" "Some ''n1''" "''nb1''"
      "[\<lparr>oe_id = ''n2'', oe_order_index = 0\<rparr>, \<lparr>oe_id = ''n1'', oe_order_index = 1\<rparr>]"]
  from t[THEN conjunct1, rule_format, OF drag_B_over_A]
  obtain activeTask where
    a: "find (\<lambda>t. t_id t = ''B'') (n_tasks note_ABC) = Some activeTask" and
    m: "mset (map oe_id [\<lparr>oe_id = ''B'', oe_order_index = 0\<rparr>, \<lparr>oe_id = ''A'', oe_order_index = 1\<rparr>,
        \<lparr>oe_id = ''C'', oe_order_index = 2\<rparr>]) =
        mset (map t_id (tasksInContainer note_ABC (t_folder_id activeTask)))"
    by blast
  have "find (\<lambda>t. t_id t = ''B'') (n_tasks note_ABC) = Some (mk_task ''B'' None 1)"
    by (simp add: example_defs)
  with a have "t_folder_id activeTask = None" by (auto simp: mk_task_def)
  with m have c1: "mset [''B'', ''A'', ''C''] = mset (map t_id (tasksInContainer note_ABC None))"
    by simp
  from t[THEN conjunct2, rule_format, OF drag_n2_over_n1]
  have c2: "mset [''n2'', ''n1''] = mset (map n_id (nb_notes notebook_ABC))"
    by simp
  from drag_B_over_A c1 drag_n2_over_n1 c2 show ?thesis by (intro conjI)
qed

section \<open>A failed optimistic reorder is rolled back\<close>

text \<open>
  C2. If the durable write of an optimistic reorder (of tasks or of notes) fails, the
  notebook forest after the mutation has run is the snapshot taken by \<open>onMutate\<close>, which
  is the forest as it was immediately before the optimistic apply, and one failure
  notification has been added. The example below: [A,B,C], optimistically
  [B,A,C], the write of A fails, the forest is [A,B,C] again.
\<close>

theorem failed_reorder_restores_snapshot:
  "(reorder_mutationFn fails taskOrder = Inl err \<longrightarrow>
      notebooks (reorderTasks fails noteId taskOrder s) = fst (reorderTasks_onMutate noteId taskOrder s) \<and>
      fst (reorderTasks_onMutate noteId taskOrder s) = notebooks s \<and>
      toasts (reorderTasks fails noteId taskOrder s) = toasts s @ [''Failed to reorder tasks''])
   \<and> (reorder_mutationFn fails noteOrder = Inl err \<longrightarrow>
      notebooks (reorderNotes fails notebookId noteOrder s) = fst (reorderNotes_onMutate notebookId noteOrder s) \<and>
      fst (reorderNotes_onMutate notebookId noteOrder s) = notebooks s \<and>
      toasts (reorderNotes fails notebookId noteOrder s) = toasts s @ [''Failed to reorder notes''])"
  by (auto simp: reorderTasks_def reorderNotes_def reorderTasks_onMutate_def reorderNotes_onMutate_def
      mutation_onError_def mutation_onSettled_def Let_def split: sum.splits)

lemma optimistic_BAC:
  "map (\<lambda>nb. map (\<lambda>n. map t_id (n_tasks n)) (nb_notes nb))
     (notebooks (snd (reorderTasks_onMutate ''n1'' order_BAC hook_ABC))) = [[[''B'', ''A'', ''C''], []]]"
  by (simp add: reorderTasks_onMutate_def reorderTasks_apply_def hook_ABC_def order_BAC_def
      example_defs js_defs List.map_filter_def)

lemma write_B_fails: "reorder_mutationFn (\<lambda>i. i = ''A'') order_BAC = Inl StoreError"
  by (simp add: reorder_mutationFn_def order_BAC_def)

lemma write_n1_fails: "reorder_mutationFn (\<lambda>i. i = ''n1'') order_n2_n1 = Inl StoreError"
  by (simp add: reorder_mutationFn_def order_n2_n1_def)

theorem failed_reorder_restores_snapshot_witness:
  "reorder_mutationFn (\<lambda>i. i = ''A'') order_BAC = Inl StoreError
   \<and> map (\<lambda>nb. map (\<lambda>n. map t_id (n_tasks n)) (nb_notes nb))
       (notebooks (snd (reorderTasks_onMutate ''n1'' order_BAC hook_ABC))) = [[[''B'', ''A'', ''C''], []]]
   \<and> notebooks (reorderTasks (\<lambda>i. i = ''A'') ''n1'' order_BAC hook_ABC) = [notebook_ABC]
   \<and> map (\<lambda>nb. map (\<lambda>n. map t_id (n_tasks n)) (nb_notes nb))
       (notebooks (reorderTasks (\<lambda>i. i = ''A'') ''n1'' order_BAC hook_ABC)) = [[[''A'', ''B'', ''C''], []]]
   \<and> toasts (reorderTasks (\<lambda>i. i = ''A'') ''n1'' order_BAC hook_ABC) = [''Failed to reorder tasks'']
   \<and> reorder_mutationFn (\<lambda>i. i = ''n1'') order_n2_n1 = Inl StoreError
   \<and> notebooks (reorderNotes (\<lambda>i. i = ''n1'') ''nb1'' order_n2_n1 hook_ABC) = [notebook_ABC]
   \<and> toasts (reorderNotes (\<lambda>i. i = ''n1'') ''nb1'' order_n2_n1 hook_ABC) = [''Failed to reorder notes'']"
proof -
  note t = failed_reorder_restores_snapshot[of "\<lambda>i. i = ''A''" order_BAC StoreError "''n1''" hook_ABC
      order_BAC "''nb1''"]
  from t[THEN conjunct1, rule_format, OF write_B_fails]
  have a: "notebooks (reorderTasks (\<lambda>i. i = ''A'') ''n1'' order_BAC hook_ABC) = [notebook_ABC]"
    and b: "toasts (reorderTasks (\<lambda>i. i = ''A'') ''n1'' order_BAC hook_ABC) = [''Failed to reorder tasks'']"
    by (simp_all add: hook_ABC_def)
  note t' = failed_reorder_restores_snapshot[of "\<lambda>i. i = ''n1''" order_BAC StoreError "''n1''" hook_ABC
      order_n2_n1 "''nb1''"]
  from t'[THEN conjunct2, rule_format, OF write_n1_fails]
  have c: "notebooks (reorderNotes (\<lambda>i. i = ''n1'') ''nb1'' order_n2_n1 hook_ABC) = [notebook_ABC]"
    and d: "toasts (reorderNotes (\<lambda>i. i = ''n1'') ''nb1'' order_n2_n1 hook_ABC) = [''Failed to reorder notes'']"
    by (simp_all add: hook_ABC_def)
  have e: "map (\<lambda>nb. map (\<lambda>n. map t_id (n_tasks n)) (nb_notes nb)) [notebook_ABC] = [[[''A'', ''B'', ''C''], []]]"
    by (simp add: example_defs)
  from write_B_fails optimistic_BAC a e b write_n1_fails c d show ?thesis by simp
qed

section \<open>Moving a task patches one field\<close>

lemma moveTask_skeleton: "skeleton (moveTask_apply taskId folderId nbs) = skeleton nbs"
  by (simp add: skeleton_def moveTask_apply_def comp_def)

lemma moveTask_task_view:
  "task_view f (moveTask_apply taskId folderId nbs) =
   task_view (\<lambda>t. f (if t_id t = taskId then t\<lparr>t_folder_id := folderId\<rparr> else t)) nbs"
  by (simp add: task_view_def moveTask_apply_def comp_def)

lemma cross_container_drop:
  assumes "find (\<lambda>t. t_id t = activeId) (n_tasks note) = Some activeTask"
    and "find (\<lambda>t. t_id t = overId) (n_tasks note) = Some overTask"
    and "t_folder_id activeTask \<noteq> t_folder_id overTask"
  shows "handleTaskDragEnd note activeId (Some overId) \<in>
           {Inr NoAction, Inr (MoveTaskToFolder activeId None),
            Inr (MoveTaskToFolder activeId (Some overId)),
            Inr (MoveTaskToFolder activeId (t_folder_id overTask))}"
  using assms
  by (auto simp: handleTaskDragEnd_def Let_def split: option.splits dest!: find_Some_iff[THEN iffD1])

text \<open>
  C7. A move of a task to another container (no write failure) changes nothing but the
  \<open>folder_id\<close> of the tasks with the moved id: notebooks, notes and folders are as before,
  every task list has the same tasks at the same positions, each with all its fields
  except \<open>folder_id\<close> (so every \<open>order_index\<close>, the moved task's included, is as before),
  tasks with another id are identical, and no notification is added. The drag handler,
  when the dragged and the target task are in different containers, issues at most a
  move and never a reorder, so nothing is renumbered by the move.
\<close>

theorem move_patches_only_folder_id:
  "skeleton (notebooks (moveTaskToFolder False taskId folderId s)) = skeleton (notebooks s)
   \<and> task_view id (notebooks (moveTaskToFolder False taskId folderId s)) =
       task_view (\<lambda>t. if t_id t = taskId then t\<lparr>t_folder_id := folderId\<rparr> else t) (notebooks s)
   \<and> task_view t_order_index (notebooks (moveTaskToFolder False taskId folderId s)) =
       task_view t_order_index (notebooks s)
   \<and> task_view (\<lambda>t. t\<lparr>t_folder_id := None\<rparr>) (notebooks (moveTaskToFolder False taskId folderId s)) =
       task_view (\<lambda>t. t\<lparr>t_folder_id := None\<rparr>) (notebooks s)
   \<and> toasts (moveTaskToFolder False taskId folderId s) = toasts s
   \<and> (find (\<lambda>t. t_id t = activeId) (n_tasks note) = Some activeTask \<and>
      find (\<lambda>t. t_id t = overId) (n_tasks note) = Some overTask \<and>
      t_folder_id activeTask \<noteq> t_folder_id overTask \<longrightarrow>
      handleTaskDragEnd note activeId (Some overId) \<in>
           {Inr NoAction, Inr (MoveTaskToFolder activeId None),
            Inr (MoveTaskToFolder activeId (Some overId)),
            Inr (MoveTaskToFolder activeId (t_folder_id overTask))})"
proof -
  have n: "notebooks (moveTaskToFolder False taskId folderId s) = moveTask_apply taskId folderId (notebooks s)"
    by (simp add: moveTaskToFolder_def mutation_onSettled_def Let_def)
  have t: "toasts (moveTaskToFolder False taskId folderId s) = toasts s"
    by (simp add: moveTaskToFolder_def mutation_onSettled_def Let_def)
  have o: "(\<lambda>t. t_order_index (if t_id t = taskId then t\<lparr>t_folder_id := folderId\<rparr> else t)) = t_order_index"
    by auto
  have e: "(\<lambda>t. (if t_id t = taskId then t\<lparr>t_folder_id := folderId\<rparr> else t)\<lparr>t_folder_id := None\<rparr>)
             = (\<lambda>t. t\<lparr>t_folder_id := None\<rparr>)"
    by auto
  show ?thesis
    using cross_container_drop[of activeId "note" activeTask overId overTask]
    by (simp only: n t moveTask_skeleton moveTask_task_view o e id_apply) blast
qed

lemma drag_A_into_folder:
  "handleTaskDragEnd note_folders ''A'' (Some ''C'') = Inr (MoveTaskToFolder ''A'' (Some ''F''))"
  by (simp add: handleTaskDragEnd_def note_folders_def example_defs)

theorem move_patches_only_folder_id_witness:
  "find (\<lambda>t. t_id t = ''A'') (n_tasks note_folders) = Some (mk_task ''A'' None 0)
   \<and> find (\<lambda>t. t_id t = ''C'') (n_tasks note_folders) = Some (mk_task ''C'' (Some ''F'') 0)
   \<and> t_folder_id (mk_task ''A'' None 0) \<noteq> t_folder_id (mk_task ''C'' (Some ''F'') 0)
   \<and> handleTaskDragEnd note_folders ''A'' (Some ''C'') = Inr (MoveTaskToFolder ''A'' (Some ''F''))
   \<and> task_view (\<lambda>t. (t_id t, t_folder_id t, t_order_index t))
         (notebooks (moveTaskToFolder False ''A'' (Some ''F'') hook_folders)) =
       [[[(''A'', Some ''F'', 0), (''B'', None, 1), (''C'', Some ''F'', 0), (''D'', Some ''F'', 1)]]]"
proof -
  note t = move_patches_only_folder_id[of "''A''" "Some ''F''" hook_folders "''A''" note_folders
      "mk_task ''A'' None 0" "''C''" "mk_task ''C'' (Some ''F'') 0"]
  have a: "find (\<lambda>t. t_id t = ''A'') (n_tasks note_folders) = Some (mk_task ''A'' None 0)"
    by (simp add: note_folders_def example_defs)
  have c: "find (\<lambda>t. t_id t = ''C'') (n_tasks note_folders) = Some (mk_task ''C'' (Some ''F'') 0)"
    by (simp add: note_folders_def example_defs)
  have d: "t_folder_id (mk_task ''A'' None 0) \<noteq> t_folder_id (mk_task ''C'' (Some ''F'') 0)"
    by (simp add: mk_task_def)
  from t a c d have
    "handleTaskDragEnd note_folders ''A'' (Some ''C'') \<in>
       {Inr NoAction, Inr (MoveTaskToFolder ''A'' None), Inr (MoveTaskToFolder ''A'' (Some ''C'')),
        Inr (MoveTaskToFolder ''A'' (t_folder_id (mk_task ''C'' (Some ''F'') 0)))}"
    by blast
  with drag_A_into_folder
  have h: "handleTaskDragEnd note_folders ''A'' (Some ''C'') = Inr (MoveTaskToFolder ''A'' (Some ''F''))"
    by simp
  from t have "task_view id (notebooks (moveTaskToFolder False ''A'' (Some ''F'') hook_folders)) =
       task_view (\<lambda>t. if t_id t = ''A'' then t\<lparr>t_folder_id := Some ''F''\<rparr> else t) (notebooks hook_folders)"
    by blast
  then have "map (map (map (\<lambda>t. (t_id t, t_folder_id t, t_order_index t))))
        (task_view id (notebooks (moveTaskToFolder False ''A'' (Some ''F'') hook_folders))) =
      map (map (map (\<lambda>t. (t_id t, t_folder_id t, t_order_index t))))
        (task_view (\<lambda>t. if t_id t = ''A'' then t\<lparr>t_folder_id := Some ''F''\<rparr> else t) (notebooks hook_folders))"
    by simp
  then have v: "task_view (\<lambda>t. (t_id t, t_folder_id t, t_order_index t))
         (notebooks (moveTaskToFolder False ''A'' (Some ''F'') hook_folders)) =
       [[[(''A'', Some ''F'', 0), (''B'', None, 1), (''C'', Some ''F'', 0), (''D'', Some ''F'', 1)]]]"
    by (simp add: task_view_def comp_def hook_folders_def note_folders_def example_defs)
  from a c d h v show ?thesis by (intro conjI)
qed


section \<open>Comment reconciliation\<close>

lemma entries_append: "entries d (xs @ ys) = entries d xs + entries d ys"
  by (simp add: entries_def)

lemma entries_zero: "entries d cs = 0 \<longleftrightarrow> \<not> list_ex (\<lambda>c. c_id c = d) cs"
  by (auto simp: entries_def list_ex_iff filter_empty_conv)

lemma entries_filter_other: "t \<noteq> d \<Longrightarrow> entries d (filter (\<lambda>c. c_id c \<noteq> t) cs) = entries d cs"
  by (induction cs) (auto simp: entries_def)

lemma entries_filter_le: "entries d (filter P cs) \<le> entries d cs"
  by (induction cs) (auto simp: entries_def)

lemma entries_le1_insert_resolved:
  "entries d cs \<le> 1 \<Longrightarrow> entries d (insert_resolved row data cs) \<le> 1"
proof (cases "c_id row = d")
  case True
  assume "entries d cs \<le> 1"
  then show ?thesis using True
    by (cases "list_ex (\<lambda>c. c_id c = d) cs")
       (simp_all add: insert_resolved_def Let_def entries_append entries_zero[symmetric], simp add: entries_def)
next
  case False
  assume "entries d cs \<le> 1"
  then show ?thesis using False
    by (simp add: insert_resolved_def Let_def entries_append, simp add: entries_def)
qed

lemma entries_le1_send_succeeded:
  "entries d cs \<le> 1 \<Longrightarrow> entries d (send_succeeded t data p cs) \<le> 1"
proof -
  assume a: "entries d cs \<le> 1"
  define w where "w = filter (\<lambda>c. c_id c \<noteq> t) cs"
  have f: "entries d w \<le> 1"
    using a entries_filter_le[of d "\<lambda>c. c_id c \<noteq> t" cs] by (simp add: w_def)
  have s: "send_succeeded t data p cs =
      (if list_ex (\<lambda>c. c_id c = c_id data) w then w
       else w @ [\<lparr>c_id = c_id data, c_task_id = c_task_id data, c_user_id = c_user_id data,
                               c_content = c_content data, c_created_at = c_created_at data,
                               c_user_name = Some (name_or ''You'' p),
                               c_avatar_url = avatar_or_null p\<rparr>])"
    by (simp add: send_succeeded_def Let_def w_def)
  show ?thesis
  proof (cases "c_id data = d")
    case True
    then show ?thesis using f
      by (cases "list_ex (\<lambda>c. c_id c = d) w")
         (simp_all add: s entries_append entries_zero[symmetric], simp add: entries_def)
  next
    case False
    then show ?thesis using f
      by (simp add: s entries_append, simp add: entries_def)
  qed
qed

lemma entries_le1_step:
  "entries d cs \<le> 1 \<Longrightarrow> entries d (fst (step e (cs, pending))) \<le> 1"
proof (cases e)
  case (PushInsert row)
  assume "entries d cs \<le> 1"
  then show ?thesis using PushInsert by (simp add: insert_received_def Let_def)
next
  case (ProfileResolved row data)
  assume "entries d cs \<le> 1"
  then show ?thesis using ProfileResolved entries_le1_insert_resolved[of d cs row data] by simp
next
  case (SendResponse t data p)
  assume "entries d cs \<le> 1"
  then show ?thesis using SendResponse entries_le1_send_succeeded[of d cs t data p] by simp
next
  case (PushDelete i)
  assume "entries d cs \<le> 1"
  then show ?thesis using PushDelete entries_filter_le[of d "\<lambda>c. c_id c \<noteq> i" cs]
    by (simp add: delete_received_def)
qed

lemma entries_le1_run:
  "entries d cs \<le> 1 \<Longrightarrow> entries d (fst (run es (cs, pending))) \<le> 1"
  unfolding run_def
proof (induction es arbitrary: cs pending)
  case Nil
  then show ?case by simp
next
  case (Cons e es)
  obtain cs' pending' where st: "step e (cs, pending) = (cs', pending')" by (cases "step e (cs, pending)")
  have "entries d cs' \<le> 1" using entries_le1_step[OF Cons.prems, of e pending] st by simp
  from Cons.IH[OF this] show ?case using st by simp
qed


lemma entries_send_succeeded:
  assumes "c_id data = d" "t \<noteq> d" "entries d cs \<le> 1"
  shows "entries d (send_succeeded t data p cs) = 1"
proof -
  define w where "w = filter (\<lambda>c. c_id c \<noteq> t) cs"
  have e: "entries d w = entries d cs" using assms(2) by (simp add: w_def entries_filter_other)
  have s: "send_succeeded t data p cs =
      (if list_ex (\<lambda>c. c_id c = d) w then w
       else w @ [\<lparr>c_id = c_id data, c_task_id = c_task_id data, c_user_id = c_user_id data,
                               c_content = c_content data, c_created_at = c_created_at data,
                               c_user_name = Some (name_or ''You'' p),
                               c_avatar_url = avatar_or_null p\<rparr>])"
    using assms(1) by (simp add: send_succeeded_def Let_def w_def)
  show ?thesis
  proof (cases "list_ex (\<lambda>c. c_id c = d) w")
    case True
    then have "entries d w \<noteq> 0" by (simp add: entries_zero)
    then show ?thesis using True e assms(3) by (simp add: s)
  next
    case False
    then have "entries d w = 0" by (simp add: entries_zero)
    then show ?thesis using False assms(1) by (simp add: s entries_append, simp add: entries_def)
  qed
qed

lemma entries_insert_resolved:
  assumes "c_id row = d" "entries d cs \<le> 1"
  shows "entries d (insert_resolved row data cs) = 1"
proof (cases "list_ex (\<lambda>c. c_id c = d) cs")
  case True
  then have "entries d cs \<noteq> 0" by (simp add: entries_zero)
  then show ?thesis using True assms by (simp add: insert_resolved_def Let_def)
next
  case False
  then have "entries d cs = 0" by (simp add: entries_zero)
  then show ?thesis using False assms(1)
    by (simp add: insert_resolved_def Let_def entries_append, simp add: entries_def)
qed

text \<open>
  C3. In the comments panel that \<open>TaskItem\<close> renders, for a comment sent with
  temporary id \<open>tempId\<close> whose durable id \<open>d\<close> is not yet in the thread: whichever of the
  direct insert response, the push INSERT and the resolution of the profile lookup comes
  first, the thread ends with exactly one entry of id \<open>d\<close> (when the response comes first
  the push event changes nothing and starts no lookup); a push INSERT whose id is held
  is a no-op in both of its updaters; and no sequence of events ever takes the number of
  entries of an id from at most one to two. The other comments panel of the repository
  has no local echo: the send followed by its push echo gives exactly one entry there
  too, but each push INSERT adds one entry whether or not the id is held.
\<close>

theorem comment_echo_reconciled:
  assumes "c_id row = d" and "c_id data = d" and "tempId \<noteq> d" and "entries d cs = 0"
  shows "(let sent = send_optimistic tempId now taskId userId content profile cs in
            run [SendResponse tempId data profile, PushInsert row] (sent, []) =
              (send_succeeded tempId data profile sent, [])
          \<and> entries d (fst (run [SendResponse tempId data profile, PushInsert row] (sent, []))) = 1
          \<and> entries d (fst (run [PushInsert row, ProfileResolved row p,
                                    SendResponse tempId data profile] (sent, []))) = 1
          \<and> entries d (fst (run [PushInsert row, SendResponse tempId data profile,
                                    ProfileResolved row p] (sent, []))) = 1)
         \<and> (\<forall>held pending. 1 \<le> entries d held \<longrightarrow>
                step (PushInsert row) (held, pending) = (held, pending) \<and>
                insert_resolved row p held = held)
         \<and> (\<forall>held pending es. entries d held \<le> 1 \<longrightarrow> entries d (fst (run es (held, pending))) \<le> 1)
         \<and> entries d (legacy_insert_resolved row p (legacy_send_succeeded cs)) = 1
         \<and> (\<forall>held. entries d (legacy_insert_resolved row p held) = entries d held + 1)"
proof -
  define sent where "sent = send_optimistic tempId now taskId userId content profile cs"
  have s0: "entries d sent = 0"
    using assms(3,4) by (simp add: sent_def send_optimistic_def entries_append, simp add: entries_def)
  then have nex: "\<not> list_ex (\<lambda>c. c_id c = c_id row) sent" using assms(1) by (simp add: entries_zero)
  have r1: "entries d (send_succeeded tempId data profile sent) = 1"
    using entries_send_succeeded[OF assms(2,3), of sent profile] s0 by simp
  then have ex1: "list_ex (\<lambda>c. c_id c = c_id row) (send_succeeded tempId data profile sent)"
    using assms(1) entries_zero[of d "send_succeeded tempId data profile sent"] by simp
  have a: "run [SendResponse tempId data profile, PushInsert row] (sent, []) =
              (send_succeeded tempId data profile sent, [])"
    using ex1 by (simp add: run_def insert_received_def Let_def)
  have b: "run [PushInsert row, ProfileResolved row p, SendResponse tempId data profile] (sent, []) =
             (send_succeeded tempId data profile (insert_resolved row p sent), [])"
    using nex by (simp add: run_def insert_received_def Let_def)
  have c: "run [PushInsert row, SendResponse tempId data profile, ProfileResolved row p] (sent, []) =
             (insert_resolved row p (send_succeeded tempId data profile sent), [])"
    using nex by (simp add: run_def insert_received_def Let_def)
  have b1: "entries d (send_succeeded tempId data profile (insert_resolved row p sent)) = 1"
    using entries_send_succeeded[OF assms(2,3), of "insert_resolved row p sent" profile]
      entries_insert_resolved[OF assms(1), of sent p] s0 by simp
  have c1: "entries d (insert_resolved row p (send_succeeded tempId data profile sent)) = 1"
    using entries_insert_resolved[OF assms(1), of "send_succeeded tempId data profile sent" p] r1 by simp
  have noop: "\<forall>held pending. 1 \<le> entries d held \<longrightarrow>
                step (PushInsert row) (held, pending) = (held, pending) \<and>
                insert_resolved row p held = held"
  proof (intro allI impI)
    fix held pending
    assume "1 \<le> entries d held"
    then have "list_ex (\<lambda>c. c_id c = c_id row) held"
      using assms(1) entries_zero[of d held] by simp
    then show "step (PushInsert row) (held, pending) = (held, pending) \<and> insert_resolved row p held = held"
      by (simp add: insert_received_def insert_resolved_def Let_def)
  qed
  have inv: "\<forall>held pending es. entries d held \<le> 1 \<longrightarrow> entries d (fst (run es (held, pending))) \<le> 1"
    using entries_le1_run by blast
  have leg: "\<forall>held. entries d (legacy_insert_resolved row p held) = entries d held + 1"
    using assms(1) by (simp add: legacy_insert_resolved_def entries_append, simp add: entries_def)
  have leg1: "entries d (legacy_insert_resolved row p (legacy_send_succeeded cs)) = 1"
    using leg assms(4) by (simp add: legacy_send_succeeded_def)
  show ?thesis
    unfolding Let_def sent_def[symmetric]
    using a r1 b b1 c c1 noop inv leg leg1 by simp
qed

theorem comment_echo_reconciled_witness:
  "c_id row_d = ''d'' \<and> ''temp_1'' \<noteq> ''d'' \<and> entries ''d'' [] = 0
   \<and> map c_id sent_hello = [''temp_1'']
   \<and> map c_id (fst (run [SendResponse ''temp_1'' row_d None, PushInsert row_d] (sent_hello, []))) = [''d'']
   \<and> entries ''d'' (fst (run [PushInsert row_d, ProfileResolved row_d None,
                               SendResponse ''temp_1'' row_d None] (sent_hello, []))) = 1
   \<and> entries ''d'' (fst (run [PushInsert row_d, SendResponse ''temp_1'' row_d None,
                               ProfileResolved row_d None] (sent_hello, []))) = 1
   \<and> 1 \<le> entries ''d'' [comment_d]
   \<and> step (PushInsert row_d) ([comment_d], []) = ([comment_d], [])"
proof -
  have h1: "c_id row_d = ''d''" by (simp add: row_d_def)
  have h3: "''temp_1'' \<noteq> ''d''" by simp
  have h4: "entries ''d'' [] = 0" by (simp add: entries_def)
  note t = comment_echo_reconciled[OF h1 h1 h3 h4, of "''2025-12-07T17:59:59Z''" "''t1''" "''u1''"
      "''hello''" None None, unfolded Let_def, folded sent_hello_def]
  have i: "map c_id sent_hello = [''temp_1'']"
    by (simp add: sent_hello_def send_optimistic_def)
  have j: "map c_id (fst (run [SendResponse ''temp_1'' row_d None, PushInsert row_d] (sent_hello, []))) = [''d'']"
    using t by (simp add: send_succeeded_def sent_hello_def send_optimistic_def row_d_def Let_def)
  have held: "1 \<le> entries ''d'' [comment_d]"
    by (simp add: entries_def comment_d_def row_d_def)
  from t held have k: "step (PushInsert row_d) ([comment_d], []) = ([comment_d], [])" by blast
  from h1 h3 h4 i j t held k show ?thesis by simp
qed

text \<open>
  C3 as worded, for every panel (a push INSERT of a held id is a no-op), fails: the
  panel without local echo, holding the comment \<open>d\<close>, receives the push INSERT of \<open>d\<close>
  again and holds it twice.
\<close>

theorem legacy_push_insert_counterexample:
  "entries ''d'' [comment_d] = 1
   \<and> legacy_insert_resolved row_d None [comment_d] \<noteq> [comment_d]
   \<and> entries ''d'' (legacy_insert_resolved row_d None [comment_d]) = 2"
  by (simp add: legacy_insert_resolved_def entries_def comment_d_def row_d_def)

section \<open>Toggling a completion\<close>











section \<open>Creating a task\<close>







section \<open>The member count of a fetched notebook\<close>

lemma memberCount_plus_owner_Some: "memberCount_plus_owner (Some k) = int k + 1"
  by (simp add: memberCount_plus_owner_def)

text \<open>
  C10. Every notebook of a fetch (with the count query answered) reports as
  \<open>memberCount\<close> the number of \<open>notebook_members\<close> rows of that notebook plus one. The
  example below is a notebook whose owner also has a membership row: one person, count 2.
\<close>

theorem memberCount_is_rows_plus_one:
  "\<forall>nb \<in> set (fetchNotebooks False db notes_of user).
     nb_memberCount nb =
       int (length (filter (\<lambda>m. m_notebook_id m = nb_id nb) (notebook_members db))) + 1"
  by (cases user)
     (auto simp: fetchNotebooks_def fetch_notebook_def count_members_def Let_def memberCount_plus_owner_Some)

lemma fetched_owner_member:
  "map nb_id (fetchNotebooks False db_owner_member (\<lambda>i. []) (Some ''u1'')) = [''nb1'']"
  by (simp add: fetchNotebooks_def fetch_notebook_def db_owner_member_def List.map_filter_def Let_def)

theorem memberCount_is_rows_plus_one_witness:
  "map nb_id (fetchNotebooks False db_owner_member (\<lambda>i. []) (Some ''u1'')) = [''nb1'']
   \<and> map nb_owner_id (fetchNotebooks False db_owner_member (\<lambda>i. []) (Some ''u1'')) = [''u1'']
   \<and> map m_user_id (filter (\<lambda>m. m_notebook_id m = ''nb1'') (notebook_members db_owner_member)) = [''u1'']
   \<and> map nb_memberCount (fetchNotebooks False db_owner_member (\<lambda>i. []) (Some ''u1'')) = [2]"
proof -
  obtain nb where l: "fetchNotebooks False db_owner_member (\<lambda>i. []) (Some ''u1'') = [nb]"
    and i: "nb_id nb = ''nb1''" and ow: "nb_owner_id nb = ''u1''"
    by (simp add: fetchNotebooks_def fetch_notebook_def db_owner_member_def List.map_filter_def Let_def)
  have m: "map m_user_id (filter (\<lambda>m. m_notebook_id m = ''nb1'') (notebook_members db_owner_member)) = [''u1'']"
    by (simp add: db_owner_member_def)
  have "nb \<in> set (fetchNotebooks False db_owner_member (\<lambda>i. []) (Some ''u1''))" using l by simp
  with memberCount_is_rows_plus_one[of db_owner_member "\<lambda>i. []" "Some ''u1''"]
  have "nb_memberCount nb =
       int (length (filter (\<lambda>m. m_notebook_id m = nb_id nb) (notebook_members db_owner_member))) + 1"
    by blast
  then have "nb_memberCount nb = 2" by (simp add: i db_owner_member_def)
  with l i ow m show ?thesis by simp
qed

section \<open>Joining by share code\<close>









section \<open>Progress percentages\<close>

lemma round_half_even_error: "\<bar>of_int (round_half_even x) - x\<bar> \<le> 1/2"
proof -
  have "of_int \<lfloor>x\<rfloor> \<le> x" "x < of_int \<lfloor>x\<rfloor> + 1" by linarith+
  then show ?thesis by (auto simp: round_half_even_def Let_def)
qed

lemma round_half_even_int: "round_half_even (of_int k) = k"
  by (simp add: round_half_even_def)

lemma binade_bounds:
  assumes "0 < x"
  shows "power_int 2 (binade x) \<le> x" and "x < power_int 2 (binade x + 1)"
proof -
  obtain p q where pq: "quotient_of x = (p, q)" by (cases "quotient_of x")
  then have q: "0 < q" by (rule quotient_of_denom_pos)
  have x: "x = of_int p / of_int q" using pq by (rule quotient_of_div)
  have p: "0 < p" using assms q x by (simp add: zero_less_divide_iff)
  define P Q where "P = nat p" and "Q = nat q"
  have P: "0 < P" "p = int P" and Q: "0 < Q" "q = int Q" using p q by (simp_all add: P_def Q_def)
  define bp bq where "bp = floorlog 2 P" and "bq = floorlog 2 Q"
  have bP: "2 ^ (bp - 1) \<le> P" "P < 2 ^ bp" using floorlog_bounds[of P 2] P by (simp_all add: bp_def)
  have bQ: "2 ^ (bq - 1) \<le> Q" "Q < 2 ^ bq" using floorlog_bounds[of Q 2] Q by (simp_all add: bq_def)
  have bp1: "1 \<le> bp" using bP(2) P(1) by (cases bp) auto
  have bq1: "1 \<le> bq" using bQ(2) Q(1) by (cases bq) auto
  have xr: "x = of_nat P / of_nat Q" using x P Q by simp
  define e0 where "e0 = int bp - int bq"
  have A: "power_int 2 (e0 - 1) \<le> x"
  proof -
    have "(2::rat) ^ (bp - 1) / 2 ^ bq \<le> of_nat P / of_nat Q"
    proof (rule frac_le)
      show "(2::rat) ^ (bp - 1) \<le> of_nat P" using bP(1) by (metis of_nat_le_iff of_nat_numeral of_nat_power)
      show "(of_nat Q :: rat) \<le> 2 ^ bq" using bQ(2) by (metis less_imp_le of_nat_le_iff of_nat_numeral of_nat_power)
      show "(0::rat) < of_nat Q" using Q by simp
      show "(0::rat) \<le> of_nat P" by simp
    qed
    moreover have "power_int (2::rat) (e0 - 1) = 2 ^ (bp - 1) / 2 ^ bq"
    proof -
      have "e0 - 1 = int (bp - 1) - int bq" using bp1 by (simp add: e0_def)
      then show ?thesis by (simp add: power_int_diff)
    qed
    ultimately show ?thesis using xr by simp
  qed
  have B: "x < power_int 2 (e0 + 1)"
  proof -
    have "of_nat P / of_nat Q < (2::rat) ^ bp / 2 ^ (bq - 1)"
    proof (rule frac_less)
      show "(of_nat P :: rat) < 2 ^ bp" using bP(2) by (metis of_nat_less_iff of_nat_numeral of_nat_power)
      show "(2::rat) ^ (bq - 1) \<le> of_nat Q" using bQ(1) by (metis of_nat_le_iff of_nat_numeral of_nat_power)
      show "(0::rat) \<le> of_nat P" by simp
      show "(0::rat) < 2 ^ (bq - 1)" by simp
    qed
    moreover have "power_int (2::rat) (e0 + 1) = 2 ^ bp / 2 ^ (bq - 1)"
    proof -
      have "e0 + 1 = int bp - int (bq - 1)" using bq1 by (simp add: e0_def)
      then show ?thesis by (simp add: power_int_diff)
    qed
    ultimately show ?thesis using xr by simp
  qed
  have b: "binade x = (if power_int 2 e0 \<le> x then e0 else e0 - 1)"
    by (simp add: binade_def pq Let_def e0_def bp_def bq_def P_def Q_def)
  show "power_int 2 (binade x) \<le> x" using A by (simp add: b)
  show "x < power_int 2 (binade x + 1)" using B by (auto simp: b)
qed


lemma power_int_2_less_exp:
  assumes "power_int (2::rat) m < power_int 2 n"
  shows "m < n"
proof (rule ccontr)
  assume "\<not> m < n"
  then have "n \<le> m" by simp
  then have "power_int (2::rat) n \<le> power_int 2 m" by (intro power_int_increasing) simp_all
  with assms show False by simp
qed

lemma binade_unique:
  assumes "0 < x" "power_int 2 e \<le> x" "x < power_int 2 (e + 1)"
  shows "binade x = e"
proof -
  have "power_int (2::rat) e < power_int 2 (binade x + 1)"
    using assms(2) binade_bounds(2)[OF assms(1)] by simp
  then have a: "e < binade x + 1" by (rule power_int_2_less_exp)
  have "power_int (2::rat) (binade x) < power_int 2 (e + 1)"
    using assms(3) binade_bounds(1)[OF assms(1)] by simp
  then have b: "binade x < e + 1" by (rule power_int_2_less_exp)
  from a b show ?thesis by simp
qed

lemma fl_pos:
  assumes "0 < x" "power_int 2 e \<le> x" "x < power_int 2 (e + 1)"
  shows "fl x = of_int (round_half_even (x / power_int 2 (e - 52))) * power_int 2 (e - 52)"
  using assms binade_unique[OF assms] by (simp add: fl_def Let_def)

lemma fl_0: "fl 0 = 0"
  by (simp add: fl_def)

lemma fl_error:
  assumes "0 < x"
  shows "\<bar>fl x - x\<bar> \<le> x / 2 ^ 53"
proof -
  define e where "e = binade x"
  define u :: rat where "u = power_int 2 (e - 52)"
  have u: "0 < u" by (simp add: u_def)
  have f: "fl x = of_int (round_half_even (x / u)) * u"
    using assms by (simp add: fl_def Let_def e_def u_def)
  have "fl x - x = (of_int (round_half_even (x / u)) - x / u) * u"
    using u by (simp add: f algebra_simps)
  then have "\<bar>fl x - x\<bar> = \<bar>of_int (round_half_even (x / u)) - x / u\<bar> * u"
    using u by (simp add: abs_mult)
  also have "\<dots> \<le> (1/2) * u"
    using round_half_even_error[of "x / u"] u by (intro mult_right_mono) simp_all
  also have "u = power_int 2 e / 2 ^ 52"
    by (simp add: u_def power_int_diff)
  also have "(1/2) * (power_int 2 e / 2 ^ 52) \<le> (1/2) * (x / 2 ^ 52)"
    using binade_bounds(1)[OF assms] by (simp add: e_def divide_right_mono)
  finally show ?thesis by simp
qed


lemma Math_round_bounds: "of_int (Math_round x) \<le> x + 1/2" "x + 1/2 < of_int (Math_round x) + 1"
  unfolding Math_round_def by linarith+

lemma Math_round_0: "Math_round 0 = 0"
  unfolding Math_round_def by (rule floor_unique) simp_all

lemma js_percent_0: "js_percent 0 b = 0"
  by (simp add: js_percent_def fl_0 Math_round_0)

lemma js_percent_float_error:
  assumes "0 < a" "0 < b"
  shows "\<bar>fl (fl (of_nat a / of_nat b) * 100) - 100 * (of_nat a / of_nat b)\<bar> \<le> (of_nat a / of_nat b) / 2 ^ 45"
proof -
  define y :: rat where "y = of_nat a / of_nat b"
  define d :: rat where "d = 1 / 2 ^ 53"
  have y: "0 < y" using assms by (simp add: y_def)
  define x1 where "x1 = fl y"
  have e1: "\<bar>x1 - y\<bar> \<le> y * d" using fl_error[OF y] by (simp add: x1_def d_def)
  have "y * d < y" using y by (simp add: d_def)
  then have x1: "0 < x1" using e1 by linarith
  define z where "z = x1 * 100"
  have z: "0 < z" using x1 by (simp add: z_def)
  define x2 where "x2 = fl z"
  have e2: "\<bar>x2 - z\<bar> \<le> z * d" using fl_error[OF z] by (simp add: x2_def d_def)
  have zu: "z \<le> 100 * y + 100 * (y * d)" using e1 unfolding z_def by linarith
  have "z * d \<le> (100 * y + 100 * (y * d)) * d"
    using zu by (intro mult_right_mono) (simp_all add: d_def)
  then have "\<bar>x2 - z\<bar> \<le> 100 * (y * d) + 100 * (y * d * d)"
    using e2 by (simp add: algebra_simps)
  moreover have "\<bar>z - 100 * y\<bar> \<le> 100 * (y * d)"
    using e1 unfolding z_def by linarith
  ultimately have "\<bar>x2 - 100 * y\<bar> \<le> 200 * (y * d) + 100 * (y * d * d)" by linarith
  also have "\<dots> = y * (200 * d + 100 * d * d)" by (simp add: algebra_simps)
  also have "\<dots> \<le> y * (1 / 2 ^ 45)"
    using y by (intro mult_left_mono) (simp_all add: d_def)
  finally show ?thesis by (simp add: x2_def z_def x1_def y_def)
qed

lemma js_percent_nearest:
  assumes "0 < b" "a < 2 ^ 44"
  shows "\<bar>of_int (js_percent a b) - 100 * (of_nat a / of_nat b :: rat)\<bar> \<le> 1/2"
proof (cases "a = 0")
  case True
  then show ?thesis by (simp add: js_percent_0)
next
  case False
  then have a: "0 < a" by simp
  define A B :: rat where "A = of_nat a" and "B = of_nat b"
  have B: "0 < B" using assms(1) by (simp add: B_def)
  have "(of_nat a :: rat) < of_nat (2 ^ 44)" using assms(2) by (simp only: of_nat_less_iff)
  then have A2: "A < 2 ^ 44" by (simp only: A_def of_nat_power of_nat_numeral)
  have A1: "0 < A" using a by (simp add: A_def)
  note A = A1 A2
  define x2 where "x2 = fl (fl (A / B) * 100)"
  define p where "p = js_percent a b"
  have p: "p = Math_round x2" by (simp add: p_def js_percent_def x2_def A_def B_def)
  have e: "\<bar>x2 - 100 * (A / B)\<bar> \<le> (A / B) / 2 ^ 45"
    using js_percent_float_error[OF a assms(1)] by (simp add: x2_def A_def B_def)
  have r1: "of_int p \<le> x2 + 1/2" and r2: "x2 + 1/2 < of_int p + 1"
    using Math_round_bounds[of x2] by (simp_all add: p)
  have "A / 2 ^ 45 < 1/2" using A(2) by simp
  then have s: "(A / B) / 2 ^ 45 < (1/2) / B"
    using B by (simp add: field_simps)
  have u1: "of_int p - 100 * (A / B) < 1/2 + (1/2) / B" using r1 e s by linarith
  have u2: "100 * (A / B) - of_int p < 1/2 + (1/2) / B" using r2 e s by linarith
  have v1: "2 * of_int p * B - 200 * A < B + 1"
  proof -
    have "(of_int p - 100 * (A / B)) * (2 * B) < (1/2 + (1/2) / B) * (2 * B)"
      using u1 B by (intro mult_strict_right_mono) simp_all
    moreover have "(1/2 + (1/2) / B) * (2 * B) = B + 1" using B by (simp add: field_simps)
    moreover have "(of_int p - 100 * (A / B)) * (2 * B) = 2 * of_int p * B - 200 * A"
      using B by (simp add: field_simps)
    ultimately show ?thesis by simp
  qed
  have v2: "200 * A - 2 * of_int p * B < B + 1"
  proof -
    have "(100 * (A / B) - of_int p) * (2 * B) < (1/2 + (1/2) / B) * (2 * B)"
      using u2 B by (intro mult_strict_right_mono) simp_all
    moreover have "(1/2 + (1/2) / B) * (2 * B) = B + 1" using B by (simp add: field_simps)
    moreover have "(100 * (A / B) - of_int p) * (2 * B) = 200 * A - 2 * of_int p * B"
      using B by (simp add: field_simps)
    ultimately show ?thesis by simp
  qed
  have i1: "2 * p * int b - 200 * int a < int b + 1"
  proof -
    have "(of_int (2 * p * int b - 200 * int a) :: rat) < of_int (int b + 1)"
      using v1 by (simp add: A_def B_def)
    then show ?thesis by (simp only: of_int_less_iff)
  qed
  have i2: "200 * int a - 2 * p * int b < int b + 1"
  proof -
    have "(of_int (200 * int a - 2 * p * int b) :: rat) < of_int (int b + 1)"
      using v2 by (simp add: A_def B_def)
    then show ?thesis by (simp only: of_int_less_iff)
  qed
  have w1: "2 * of_int p * B - 200 * A \<le> B"
  proof -
    have "2 * p * int b - 200 * int a \<le> int b" using i1 by simp
    then have "(of_int (2 * p * int b - 200 * int a) :: rat) \<le> of_int (int b)" by (simp only: of_int_le_iff)
    then show ?thesis by (simp add: A_def B_def)
  qed
  have w2: "200 * A - 2 * of_int p * B \<le> B"
  proof -
    have "200 * int a - 2 * p * int b \<le> int b" using i2 by simp
    then have "(of_int (200 * int a - 2 * p * int b) :: rat) \<le> of_int (int b)" by (simp only: of_int_le_iff)
    then show ?thesis by (simp add: A_def B_def)
  qed
  have "of_int p - 100 * (A / B) \<le> 1/2" using w1 B by (simp add: field_simps)
  moreover have "100 * (A / B) - of_int p \<le> 1/2" using w2 B by (simp add: field_simps)
  ultimately have "\<bar>of_int p - 100 * (A / B)\<bar> \<le> 1/2" by linarith
  then show ?thesis by (simp only: p_def A_def B_def)
qed


lemma round_half_even_near:
  assumes "\<bar>x - of_int k\<bar> < 1/2"
  shows "round_half_even x = k"
proof (cases "of_int k \<le> x")
  case True
  then have "\<lfloor>x\<rfloor> = k" using assms by (intro floor_unique) linarith+
  then show ?thesis using assms True by (simp add: round_half_even_def Let_def)
next
  case False
  have "of_int (k - 1) \<le> x" "x < of_int (k - 1) + 1"
    using assms False unfolding of_int_diff of_int_1 by linarith+
  then have "\<lfloor>x\<rfloor> = k - 1" by (rule floor_unique)
  moreover have "1 / 2 < x - of_int (k - 1)"
    using assms False unfolding of_int_diff of_int_1 by linarith
  ultimately show ?thesis by (simp add: round_half_even_def Let_def)
qed

lemma Math_round_eq:
  assumes "of_int k \<le> x + 1/2" "x + 1/2 < of_int k + 1"
  shows "Math_round x = k"
  unfolding Math_round_def using assms by (rule floor_unique)

lemma fl_29_200: "fl (29 / 200) = 5224175567749775 / 36028797018963968"
proof -
  have "round_half_even (29 / 200 / power_int 2 (- 3 - 52)) = 5224175567749775"
    by (rule round_half_even_near) simp
  then show ?thesis by (subst fl_pos[where e = "-3"]) simp_all
qed

lemma fl_29_200_times_100:
  "fl (130604389193744375 / 9007199254740992) = 8162774324609023 / 562949953421312"
proof -
  have "round_half_even (130604389193744375 / 9007199254740992 / power_int 2 (3 - 52)) = 8162774324609023"
    by (rule round_half_even_near) simp
  then show ?thesis by (subst fl_pos[where e = 3]) simp_all
qed

lemma js_percent_29_200: "js_percent 29 200 = 14"
  unfolding js_percent_def
  by (rule Math_round_eq) (simp_all add: fl_29_200 fl_29_200_times_100)

lemma fl_1_8: "fl (1 / 8) = 1 / 8"
proof -
  have "round_half_even (1 / 8 / power_int 2 (- 3 - 52)) = 4503599627370496"
    by (rule round_half_even_near) simp
  then show ?thesis by (subst fl_pos[where e = "-3"]) simp_all
qed

lemma fl_25_2: "fl (25 / 2) = 25 / 2"
proof -
  have "round_half_even (25 / 2 / power_int 2 (3 - 52)) = 7036874417766400"
    by (rule round_half_even_near) simp
  then show ?thesis by (subst fl_pos[where e = 3]) simp_all
qed

lemma js_percent_1_8: "js_percent 1 8 = 13"
  unfolding js_percent_def
  by (rule Math_round_eq) (simp_all add: fl_1_8 fl_25_2)

lemma count_le_length: "length (filter P xs) \<le> length xs"
  by simp

lemma js_percent_bound:
  assumes "0 < n" "n < 2 ^ 32" "c \<le> n"
  shows "\<bar>of_int (js_percent c n) - 100 * (of_nat c / of_nat n :: rat)\<bar> \<le> 1/2"
proof -
  have "(2::nat) ^ 32 \<le> 2 ^ 44" by (rule power_increasing) simp_all
  then have "c < 2 ^ 44" using assms(2,3) by linarith
  then show ?thesis using assms(1) by (intro js_percent_nearest)
qed

lemma progress_core:
  "length ts < 2 ^ 32 \<longrightarrow>
     (ts = [] \<longrightarrow> pr_percentage (if length ts = 0 then no_progress
                   else \<lparr>pr_completed = length (filter P ts), pr_total = length ts,
                          pr_percentage = js_percent (length (filter P ts)) (length ts)\<rparr>) = 0)
   \<and> (ts \<noteq> [] \<longrightarrow>
         nearest_percent (pr_percentage (if length ts = 0 then no_progress
                   else \<lparr>pr_completed = length (filter P ts), pr_total = length ts,
                          pr_percentage = js_percent (length (filter P ts)) (length ts)\<rparr>))
            (length (filter P ts)) (length ts))"
proof (cases "ts = []")
  case True
  then show ?thesis by (simp add: no_progress_def)
next
  case False
  then have l: "0 < length ts" by simp
  show ?thesis
  proof
    assume "length ts < 2 ^ 32"
    from js_percent_bound[OF l this count_le_length[of P ts]] False
    show "(ts = [] \<longrightarrow> pr_percentage (if length ts = 0 then no_progress
                   else \<lparr>pr_completed = length (filter P ts), pr_total = length ts,
                          pr_percentage = js_percent (length (filter P ts)) (length ts)\<rparr>) = 0)
   \<and> (ts \<noteq> [] \<longrightarrow>
         nearest_percent (pr_percentage (if length ts = 0 then no_progress
                   else \<lparr>pr_completed = length (filter P ts), pr_total = length ts,
                          pr_percentage = js_percent (length (filter P ts)) (length ts)\<rparr>))
            (length (filter P ts)) (length ts))"
      by (simp add: nearest_percent_def)
  qed
qed

text \<open>
  C5. For a note, for a notebook, and for the task list of the earlier types
  module with a user id given (lists of fewer than \<open>2^32\<close> tasks, as every JavaScript
  array is): the percentage is 0 when there is no task, and otherwise an integer
  nearest to \<open>100 * completed / total\<close>, that is, within one half of it. So it is the exact
  percentage rounded, except that a percentage exactly halfway between two integers
  may come out as either neighbour, since the quotient and the product are rounded to
  doubles before \<open>Math.round\<close> sees them. One task of four gives 25.
\<close>

theorem progress_is_nearest_percent:
  "(length (n_tasks note) < 2 ^ 32 \<longrightarrow>
      (n_tasks note = [] \<longrightarrow> pr_percentage (calculateNoteProgress note userId) = 0) \<and>
      (n_tasks note \<noteq> [] \<longrightarrow>
         nearest_percent (pr_percentage (calculateNoteProgress note userId))
           (length (filter (\<lambda>task. userId \<in> set (t_completedBy task)) (n_tasks note)))
           (length (n_tasks note))))
   \<and> (length (concat (map n_tasks (nb_notes notebook))) < 2 ^ 32 \<longrightarrow>
      (concat (map n_tasks (nb_notes notebook)) = [] \<longrightarrow>
         pr_percentage (calculateProgress notebook userId) = 0) \<and>
      (concat (map n_tasks (nb_notes notebook)) \<noteq> [] \<longrightarrow>
         nearest_percent (pr_percentage (calculateProgress notebook userId))
           (length (filter (\<lambda>task. userId \<in> set (t_completedBy task))
                      (concat (map n_tasks (nb_notes notebook)))))
           (length (concat (map n_tasks (nb_notes notebook))))))
   \<and> (length tasks < 2 ^ 32 \<longrightarrow>
      (tasks = [] \<longrightarrow> pr_percentage (legacy_progress tasks (Some (c # cs))) = 0) \<and>
      (tasks \<noteq> [] \<longrightarrow>
         nearest_percent (pr_percentage (legacy_progress tasks (Some (c # cs))))
           (length (filter (\<lambda>task. (c # cs) \<in> set (lt_completedBy task)) tasks))
           (length tasks)))"
proof -
  have a: "calculateNoteProgress note userId =
      (if length (n_tasks note) = 0 then no_progress
       else \<lparr>pr_completed = length (filter (\<lambda>task. userId \<in> set (t_completedBy task)) (n_tasks note)),
              pr_total = length (n_tasks note),
              pr_percentage = js_percent (length (filter (\<lambda>task. userId \<in> set (t_completedBy task)) (n_tasks note)))
                                (length (n_tasks note))\<rparr>)"
    by (simp only: calculateNoteProgress_def Let_def)
  have b: "calculateProgress notebook userId =
      (if length (concat (map n_tasks (nb_notes notebook))) = 0 then no_progress
       else \<lparr>pr_completed = length (filter (\<lambda>task. userId \<in> set (t_completedBy task))
                                    (concat (map n_tasks (nb_notes notebook)))),
              pr_total = length (concat (map n_tasks (nb_notes notebook))),
              pr_percentage = js_percent (length (filter (\<lambda>task. userId \<in> set (t_completedBy task))
                                    (concat (map n_tasks (nb_notes notebook)))))
                                (length (concat (map n_tasks (nb_notes notebook))))\<rparr>)"
    by (simp only: calculateProgress_def Let_def)
  have t: "truthy (Some (c # cs))" by (simp add: truthy_def)
  have c: "legacy_progress tasks (Some (c # cs)) =
      (if length tasks = 0 then no_progress
       else \<lparr>pr_completed = length (filter (\<lambda>task. (c # cs) \<in> set (lt_completedBy task)) tasks),
              pr_total = length tasks,
              pr_percentage = js_percent (length (filter (\<lambda>task. (c # cs) \<in> set (lt_completedBy task)) tasks))
                                (length tasks)\<rparr>)"
    by (simp only: legacy_progress_def Let_def t if_True option.sel)
  show ?thesis
    unfolding a b c
    by (intro conjI progress_core)
qed

lemma nearest_percent_exact:
  assumes "nearest_percent p c n" "0 < n" "100 * c = k * n"
  shows "p = int k"
proof -
  have "(of_nat (100 * c) :: rat) = of_nat (k * n)" using assms(3) by simp
  then have "100 * (of_nat c / of_nat n :: rat) = of_nat k" using assms(2) by (simp add: field_simps)
  then have "\<bar>(of_int p :: rat) - of_int (int k)\<bar> \<le> 1/2"
    using assms(1) by (simp add: nearest_percent_def)
  then have "\<bar>(of_int (p - int k) :: rat)\<bar> < 1" by simp
  then have "\<bar>p - int k\<bar> < 1" by (metis of_int_1 of_int_abs of_int_less_iff)
  then show ?thesis by simp
qed

lemma note_1_of_4_counts:
  "length (n_tasks note_1_of_4) = 4"
  "length (filter (\<lambda>task. ''u1'' \<in> set (t_completedBy task)) (n_tasks note_1_of_4)) = 1"
  by (simp_all add: note_1_of_4_def task_by_def example_defs)

lemma notebook_group_completed:
  "length (concat (map n_tasks (nb_notes notebook_group))) = 4"
  "length (filter (\<lambda>task. ''u1'' \<in> set (t_completedBy task))
             (concat (map n_tasks (nb_notes notebook_group)))) = 1"
  by (simp_all add: notebook_group_def note_1_of_4_def task_by_def example_defs)

theorem progress_is_nearest_percent_witness:
  "length (n_tasks note_1_of_4) < 2 ^ 32 \<and> n_tasks note_1_of_4 \<noteq> []
   \<and> length (n_tasks note_1_of_4) = 4
   \<and> length (filter (\<lambda>task. ''u1'' \<in> set (t_completedBy task)) (n_tasks note_1_of_4)) = 1
   \<and> pr_percentage (calculateNoteProgress note_1_of_4 ''u1'') = 25
   \<and> n_tasks (mk_note ''n0'' [] []) = []
   \<and> pr_percentage (calculateNoteProgress (mk_note ''n0'' [] []) ''u1'') = 0
   \<and> length (concat (map n_tasks (nb_notes notebook_group))) = 4
   \<and> pr_percentage (calculateProgress notebook_group ''u1'') = 25
   \<and> pr_percentage (legacy_progress [legacy_task [''A''], legacy_task []] (Some ''A'')) = 50"
proof -
  have l: "length (n_tasks note_1_of_4) < 2 ^ 32" by (simp add: note_1_of_4_counts)
  have n: "n_tasks note_1_of_4 \<noteq> []" using note_1_of_4_counts(1) by auto
  from progress_is_nearest_percent[of note_1_of_4 "''u1''", THEN conjunct1, rule_format, OF l] n
  have "nearest_percent (pr_percentage (calculateNoteProgress note_1_of_4 ''u1''))
           (length (filter (\<lambda>task. ''u1'' \<in> set (t_completedBy task)) (n_tasks note_1_of_4)))
           (length (n_tasks note_1_of_4))"
    by blast
  then have "nearest_percent (pr_percentage (calculateNoteProgress note_1_of_4 ''u1'')) 1 4"
    by (simp only: note_1_of_4_counts)
  then have p: "pr_percentage (calculateNoteProgress note_1_of_4 ''u1'') = 25"
    using nearest_percent_exact[of _ 1 4 25] by simp
  have e: "n_tasks (mk_note ''n0'' [] []) = []" by (simp add: mk_note_def)
  have l0: "length (n_tasks (mk_note ''n0'' [] [])) < 2 ^ 32" by (simp add: mk_note_def)
  from progress_is_nearest_percent[of "mk_note ''n0'' [] []" "''u1''", THEN conjunct1, rule_format, OF l0] e
  have z: "pr_percentage (calculateNoteProgress (mk_note ''n0'' [] []) ''u1'') = 0" by blast
  have lb: "length (concat (map n_tasks (nb_notes notebook_group))) < 2 ^ 32"
    by (simp only: notebook_group_completed) simp
  have nb: "concat (map n_tasks (nb_notes notebook_group)) \<noteq> []"
    using notebook_group_completed(1) by (metis length_0_conv zero_neq_numeral)
  from progress_is_nearest_percent[where notebook = notebook_group and userId = "''u1''",
      THEN conjunct2, THEN conjunct1, rule_format, OF lb] nb
  have "nearest_percent (pr_percentage (calculateProgress notebook_group ''u1''))
           (length (filter (\<lambda>task. ''u1'' \<in> set (t_completedBy task))
                      (concat (map n_tasks (nb_notes notebook_group)))))
           (length (concat (map n_tasks (nb_notes notebook_group))))"
    by blast
  then have "nearest_percent (pr_percentage (calculateProgress notebook_group ''u1'')) 1 4"
    by (simp only: notebook_group_completed)
  then have pb: "pr_percentage (calculateProgress notebook_group ''u1'') = 25"
    using nearest_percent_exact[of _ 1 4 25] by simp
  have ll: "length [legacy_task [''A''], legacy_task []] < 2 ^ 32" by simp
  from progress_is_nearest_percent[where tasks = "[legacy_task [''A''], legacy_task []]"
      and c = "CHR ''A''" and cs = "[]", THEN conjunct2, THEN conjunct2, rule_format, OF ll]
  have "nearest_percent (pr_percentage (legacy_progress [legacy_task [''A''], legacy_task []] (Some ''A'')))
           (length (filter (\<lambda>task. ''A'' \<in> set (lt_completedBy task)) [legacy_task [''A''], legacy_task []]))
           (length [legacy_task [''A''], legacy_task []])"
    by blast
  moreover have "length (filter (\<lambda>task. ''A'' \<in> set (lt_completedBy task)) [legacy_task [''A''], legacy_task []]) = 1"
    and "length [legacy_task [''A''], legacy_task []] = 2"
    by (simp_all add: legacy_task_def)
  ultimately have "nearest_percent (pr_percentage (legacy_progress [legacy_task [''A''], legacy_task []] (Some ''A''))) 1 2"
    by (simp only:)
  then have pl: "pr_percentage (legacy_progress [legacy_task [''A''], legacy_task []] (Some ''A'')) = 50"
    using nearest_percent_exact[of _ 1 2 50] by simp
  from l n note_1_of_4_counts p e z notebook_group_completed(1) pb pl show ?thesis by (intro conjI)
qed

lemma note_29_of_200_counts:
  "length (n_tasks note_29_of_200) = 200"
  "length (filter (\<lambda>task. ''u1'' \<in> set (t_completedBy task)) (n_tasks note_29_of_200)) = 29"
  by (simp_all add: note_29_of_200_def task_by_def example_defs)

lemma note_1_of_8_counts:
  "length (n_tasks note_1_of_8) = 8"
  "length (filter (\<lambda>task. ''u1'' \<in> set (t_completedBy task)) (n_tasks note_1_of_8)) = 1"
  by (simp_all add: note_1_of_8_def task_by_def example_defs)

text \<open>
  C5 as worded, with the exact percentage rounded, fails: with 29 of 200 tasks completed the exact percentage is 14.5 and
  the code gives 14, where rounding a tie upwards (\<open>Math.round\<close> of the exact value) gives
  15; with 1 of 8 the exact percentage is 12.5 and the code gives 13, where rounding a
  tie to even gives 12. No rounding rule applied to the exact percentage gives both.
\<close>

theorem progress_round_counterexample:
  "length (n_tasks note_29_of_200) = 200
   \<and> length (filter (\<lambda>task. ''u1'' \<in> set (t_completedBy task)) (n_tasks note_29_of_200)) = 29
   \<and> pr_percentage (calculateNoteProgress note_29_of_200 ''u1'') = 14
   \<and> Math_round (100 * (29 / 200)) = 15
   \<and> length (n_tasks note_1_of_8) = 8
   \<and> length (filter (\<lambda>task. ''u1'' \<in> set (t_completedBy task)) (n_tasks note_1_of_8)) = 1
   \<and> pr_percentage (calculateNoteProgress note_1_of_8 ''u1'') = 13
   \<and> round_half_even (100 * (1 / 8)) = 12"
proof -
  have a: "pr_percentage (calculateNoteProgress note_29_of_200 ''u1'') = 14"
    by (simp add: calculateNoteProgress_def Let_def note_29_of_200_counts js_percent_29_200)
  have b: "Math_round (100 * (29 / 200)) = 15"
    by (rule Math_round_eq) simp_all
  have "js_percent (Suc 0) 8 = 13" using js_percent_1_8 by simp
  then have c: "pr_percentage (calculateNoteProgress note_1_of_8 ''u1'') = 13"
    by (simp add: calculateNoteProgress_def Let_def note_1_of_8_counts)
  have d: "round_half_even (100 * (1 / 8)) = 12"
    by (simp add: round_half_even_def Let_def floor_unique[of 12])
  from note_29_of_200_counts a b note_1_of_8_counts c d show ?thesis by (intro conjI)
qed

lemma fold_sum_zero: "fold (\<lambda>p sum. sum + pr_percentage p) (map (\<lambda>m. no_progress) ms) acc = acc"
  by (induction ms arbitrary: acc) (simp_all add: no_progress_def)

lemma groupAverage_js_percent:
  assumes "0 < m"
  shows "Math_round (fl (fl (of_nat E / (of_nat n * of_int m)) * 100)) = js_percent E (n * nat m)"
proof -
  have "(of_nat n * of_int m :: rat) = of_nat (n * nat m)" using assms by simp
  then show ?thesis by (simp only: js_percent_def)
qed

text \<open>
  C6. \<open>calculateGroupAverage\<close>, which the notebook view shows for a shared
  notebook, gives 0 when the notebook has no task or \<open>memberCount\<close> is 0, and otherwise
  (member count positive, fewer than \<open>2^44\<close> completion entries) an integer nearest to
  \<open>100 * entries / (taskCount * memberCount)\<close>, a tie going to either neighbour.
  \<open>calculateGroupAverageProgress\<close> of the earlier types module gives 0 with no member or
  no task, and otherwise \<open>Math.round\<close> of the mean of the members' own rounded percentages,
  which is another number.
\<close>

theorem group_average_is_nearest_percent:
  "(concat (map n_tasks (nb_notes notebook)) = [] \<or> nb_memberCount notebook = 0 \<longrightarrow>
      pr_percentage (calculateGroupAverage notebook) = 0)
   \<and> (concat (map n_tasks (nb_notes notebook)) \<noteq> [] \<and> 0 < nb_memberCount notebook \<and>
       fold (\<lambda>task sum. sum + length (t_completedBy task)) (concat (map n_tasks (nb_notes notebook))) 0 < 2 ^ 44 \<longrightarrow>
      nearest_percent (pr_percentage (calculateGroupAverage notebook))
        (fold (\<lambda>task sum. sum + length (t_completedBy task)) (concat (map n_tasks (nb_notes notebook))) 0)
        (length (concat (map n_tasks (nb_notes notebook))) * nat (nb_memberCount notebook)))
   \<and> (lnb_members legacy = [] \<or> concat (map ln_tasks (lnb_notes legacy)) = [] \<longrightarrow>
      pr_percentage (calculateGroupAverageProgress legacy) = 0)
   \<and> (lnb_members legacy \<noteq> [] \<longrightarrow>
      pr_percentage (calculateGroupAverageProgress legacy) =
        Math_round (fl (of_int (sum_list (map (\<lambda>member. pr_percentage
                                      (legacy_calculateNotebookProgress legacy (Some (lm_userId member))))
                                   (lnb_members legacy)))
                        / of_nat (length (lnb_members legacy)))))"
proof (intro conjI impI)
  define ts where "ts = concat (map n_tasks (nb_notes notebook))"
  have g: "calculateGroupAverage notebook =
     (if length ts = 0 \<or> nb_memberCount notebook = 0 then no_progress
      else \<lparr>pr_completed = 0, pr_total = 0,
             pr_percentage = Math_round (fl (fl (of_nat (fold (\<lambda>task sum. sum + length (t_completedBy task)) ts 0)
                                  / (of_nat (length ts) * of_int (nb_memberCount notebook))) * 100))\<rparr>)"
    by (simp only: calculateGroupAverage_def Let_def ts_def)
  {
    assume "concat (map n_tasks (nb_notes notebook)) = [] \<or> nb_memberCount notebook = 0"
    then have "ts = [] \<or> nb_memberCount notebook = 0" unfolding ts_def by blast
    then have "length ts = 0 \<or> nb_memberCount notebook = 0" by auto
    then show "pr_percentage (calculateGroupAverage notebook) = 0"
      by (simp only: g if_True) (simp add: no_progress_def)
  }
  {
    assume h: "concat (map n_tasks (nb_notes notebook)) \<noteq> [] \<and> 0 < nb_memberCount notebook \<and>
       fold (\<lambda>task sum. sum + length (t_completedBy task)) (concat (map n_tasks (nb_notes notebook))) 0 < 2 ^ 44"
    then have "ts \<noteq> []" unfolding ts_def by blast
    then have n: "0 < length ts" by simp
    have m: "0 < nb_memberCount notebook" using h by blast
    have e: "fold (\<lambda>task sum. sum + length (t_completedBy task)) ts 0 < 2 ^ 44"
      using h unfolding ts_def by blast
    have c: "\<not> (length ts = 0 \<or> nb_memberCount notebook = 0)" using n m by simp
    have p: "pr_percentage (calculateGroupAverage notebook) =
        js_percent (fold (\<lambda>task sum. sum + length (t_completedBy task)) ts 0) (length ts * nat (nb_memberCount notebook))"
      by (simp only: g c if_False groupAverage_js_percent[OF m]) simp
    have "0 < length ts * nat (nb_memberCount notebook)" using n m by simp
    from js_percent_nearest[OF this e]
    show "nearest_percent (pr_percentage (calculateGroupAverage notebook))
        (fold (\<lambda>task sum. sum + length (t_completedBy task)) (concat (map n_tasks (nb_notes notebook))) 0)
        (length (concat (map n_tasks (nb_notes notebook))) * nat (nb_memberCount notebook))"
      by (simp only: nearest_percent_def p ts_def)
  }
  have fs: "fold (\<lambda>p sum. sum + pr_percentage p) ps acc = acc + sum_list (map pr_percentage ps)" for ps acc
    by (induction ps arbitrary: acc) simp_all
  {
    assume "lnb_members legacy \<noteq> []"
    then show "pr_percentage (calculateGroupAverageProgress legacy) =
        Math_round (fl (of_int (sum_list (map (\<lambda>member. pr_percentage
                                      (legacy_calculateNotebookProgress legacy (Some (lm_userId member))))
                                   (lnb_members legacy)))
                        / of_nat (length (lnb_members legacy))))"
      by (simp add: calculateGroupAverageProgress_def Let_def fs comp_def)
  }
  {
    assume h: "lnb_members legacy = [] \<or> concat (map ln_tasks (lnb_notes legacy)) = []"
    show "pr_percentage (calculateGroupAverageProgress legacy) = 0"
    proof (cases "lnb_members legacy = []")
      case True
      then show ?thesis by (simp add: calculateGroupAverageProgress_def no_progress_def)
    next
      case False
      then have t: "concat (map ln_tasks (lnb_notes legacy)) = []" using h by simp
      have "legacy_calculateNotebookProgress legacy u = no_progress" for u
        by (simp add: legacy_calculateNotebookProgress_def legacy_progress_def t Let_def
            del: concat_eq_Nil_conv)
      then show ?thesis
        using False
        by (simp add: calculateGroupAverageProgress_def Let_def fold_sum_zero fl_0 Math_round_0)
    qed
  }
qed

lemma notebook_group_counts:
  "length (concat (map n_tasks (nb_notes notebook_group))) = 4"
  "fold (\<lambda>task sum. sum + length (t_completedBy task)) (concat (map n_tasks (nb_notes notebook_group))) 0 = 2"
  "nb_memberCount notebook_group = 2"
  by (simp_all add: notebook_group_def note_1_of_4_def task_by_def example_defs)

lemma fl_13_2: "fl (13 / 2) = 13 / 2"
proof -
  have "round_half_even (13 / 2 / power_int 2 (2 - 52)) = 7318349394477056"
    by (rule round_half_even_near) simp
  then show ?thesis by (subst fl_pos[where e = 2]) simp_all
qed

lemma legacy_notebook_8_progress:
  "pr_percentage (legacy_calculateNotebookProgress legacy_notebook_8 (Some ''A'')) = 13"
  "pr_percentage (legacy_calculateNotebookProgress legacy_notebook_8 (Some ''B'')) = 0"
proof -
  have a: "js_percent (Suc 0) 8 = 13" using js_percent_1_8 by simp
  show "pr_percentage (legacy_calculateNotebookProgress legacy_notebook_8 (Some ''A'')) = 13"
    by (simp add: legacy_calculateNotebookProgress_def legacy_progress_def legacy_notebook_8_def
        legacy_task_def truthy_def Let_def a)
  show "pr_percentage (legacy_calculateNotebookProgress legacy_notebook_8 (Some ''B'')) = 0"
    by (simp add: legacy_calculateNotebookProgress_def legacy_progress_def legacy_notebook_8_def
        legacy_task_def truthy_def Let_def js_percent_0)
qed

theorem group_average_is_nearest_percent_witness:
  "concat (map n_tasks (nb_notes notebook_group)) \<noteq> [] \<and> 0 < nb_memberCount notebook_group
   \<and> fold (\<lambda>task sum. sum + length (t_completedBy task))
         (concat (map n_tasks (nb_notes notebook_group))) 0 = 2
   \<and> length (concat (map n_tasks (nb_notes notebook_group))) * nat (nb_memberCount notebook_group) = 8
   \<and> pr_percentage (calculateGroupAverage notebook_group) = 25
   \<and> nb_memberCount (notebook_group\<lparr>nb_memberCount := 0\<rparr>) = 0
   \<and> pr_percentage (calculateGroupAverage (notebook_group\<lparr>nb_memberCount := 0\<rparr>)) = 0
   \<and> lnb_members (legacy_notebook_8\<lparr>lnb_members := []\<rparr>) = []
   \<and> pr_percentage (calculateGroupAverageProgress (legacy_notebook_8\<lparr>lnb_members := []\<rparr>)) = 0
   \<and> lnb_members legacy_notebook_8 \<noteq> []
   \<and> pr_percentage (calculateGroupAverageProgress legacy_notebook_8) = Math_round (fl (13 / 2))"
proof -
  have n: "concat (map n_tasks (nb_notes notebook_group)) \<noteq> []"
    using notebook_group_counts(1) by (metis length_0_conv zero_neq_numeral)
  have m: "0 < nb_memberCount notebook_group" by (simp add: notebook_group_counts)
  have e: "fold (\<lambda>task sum. sum + length (t_completedBy task))
         (concat (map n_tasks (nb_notes notebook_group))) 0 < 2 ^ 44"
    by (simp add: notebook_group_counts)
  have k: "length (concat (map n_tasks (nb_notes notebook_group))) * nat (nb_memberCount notebook_group) = 8"
    by (simp add: notebook_group_counts)
  note t = group_average_is_nearest_percent[of notebook_group]
  from t n m e
  have "nearest_percent (pr_percentage (calculateGroupAverage notebook_group))
        (fold (\<lambda>task sum. sum + length (t_completedBy task)) (concat (map n_tasks (nb_notes notebook_group))) 0)
        (length (concat (map n_tasks (nb_notes notebook_group))) * nat (nb_memberCount notebook_group))"
    by blast
  then have "nearest_percent (pr_percentage (calculateGroupAverage notebook_group)) 2 8"
    by (simp only: k notebook_group_counts(2))
  then have p: "pr_percentage (calculateGroupAverage notebook_group) = 25"
    using nearest_percent_exact[of _ 2 8 25] by simp
  have z: "nb_memberCount (notebook_group\<lparr>nb_memberCount := 0\<rparr>) = 0" by simp
  from group_average_is_nearest_percent[of "notebook_group\<lparr>nb_memberCount := 0\<rparr>"] z
  have p0: "pr_percentage (calculateGroupAverage (notebook_group\<lparr>nb_memberCount := 0\<rparr>)) = 0"
    by blast
  have l: "lnb_members (legacy_notebook_8\<lparr>lnb_members := []\<rparr>) = []" by simp
  from group_average_is_nearest_percent[of _ "legacy_notebook_8\<lparr>lnb_members := []\<rparr>"] l
  have l0: "pr_percentage (calculateGroupAverageProgress (legacy_notebook_8\<lparr>lnb_members := []\<rparr>)) = 0"
    by blast
  have lm: "lnb_members legacy_notebook_8 =
      [\<lparr>lm_userId = ''A'', lm_role = Owner, lm_joinedAt = []\<rparr>,
       \<lparr>lm_userId = ''B'', lm_role = Reader, lm_joinedAt = []\<rparr>]"
    by (simp add: legacy_notebook_8_def)
  then have ne: "lnb_members legacy_notebook_8 \<noteq> []" by simp
  from group_average_is_nearest_percent[of _ legacy_notebook_8] ne
  have "pr_percentage (calculateGroupAverageProgress legacy_notebook_8) =
        Math_round (fl (of_int (sum_list (map (\<lambda>member. pr_percentage
                                      (legacy_calculateNotebookProgress legacy_notebook_8 (Some (lm_userId member))))
                                   (lnb_members legacy_notebook_8)))
                        / of_nat (length (lnb_members legacy_notebook_8))))"
    by blast
  then have lp: "pr_percentage (calculateGroupAverageProgress legacy_notebook_8) = Math_round (fl (13 / 2))"
    by (simp add: lm legacy_notebook_8_progress)
  from n m notebook_group_counts(2) k p z p0 l l0 ne lp show ?thesis by (intro conjI)
qed

text \<open>
  C6 as worded, for both functions, fails: the earlier module's function on 8 tasks and 2 members, of whom
  one has completed one task. The members' percentages are 13 and 0, their mean 6.5
  gives 7; the formula of the claim is \<open>100 * 1 / (8 * 2) = 6.25\<close>, which rounds to 6, and
  7 is not within one half of it.
\<close>

theorem legacy_group_average_counterexample:
  "length (concat (map ln_tasks (lnb_notes legacy_notebook_8))) = 8
   \<and> length (lnb_members legacy_notebook_8) = 2
   \<and> sum_list (map (\<lambda>task. length (lt_completedBy task))
         (concat (map ln_tasks (lnb_notes legacy_notebook_8)))) = 1
   \<and> pr_percentage (calculateGroupAverageProgress legacy_notebook_8) = 7
   \<and> Math_round (100 * (1 / (8 * 2))) = 6
   \<and> \<not> nearest_percent 7 1 (8 * 2)"
proof -
  have a: "length (concat (map ln_tasks (lnb_notes legacy_notebook_8))) = 8"
    by (simp add: legacy_notebook_8_def)
  have b: "length (lnb_members legacy_notebook_8) = 2"
    by (simp add: legacy_notebook_8_def)
  have c: "sum_list (map (\<lambda>task. length (lt_completedBy task))
         (concat (map ln_tasks (lnb_notes legacy_notebook_8)))) = 1"
    by (simp add: legacy_notebook_8_def legacy_task_def sum_list_replicate)
  have m: "lnb_members legacy_notebook_8 =
      [\<lparr>lm_userId = ''A'', lm_role = Owner, lm_joinedAt = []\<rparr>,
       \<lparr>lm_userId = ''B'', lm_role = Reader, lm_joinedAt = []\<rparr>]"
    by (simp add: legacy_notebook_8_def)
  have "Math_round (fl (13 / 2)) = 7"
    by (rule Math_round_eq) (simp_all add: fl_13_2)
  then have d: "pr_percentage (calculateGroupAverageProgress legacy_notebook_8) = 7"
    by (simp add: calculateGroupAverageProgress_def Let_def m legacy_notebook_8_progress)
  have e: "Math_round (100 * (1 / (8 * 2))) = 6"
    by (rule Math_round_eq) simp_all
  have f: "\<not> nearest_percent 7 1 (8 * 2)"
    by (simp add: nearest_percent_def)
  from a b c d e f show ?thesis by (intro conjI)
qed

end
